theory Spec2Isabelle
  imports Main "HOL-Library.Word" "HOL-Library.AList" "HOL-Library.List_Lexorder"
    "HOL-Library.Char_ord"
begin

section \<open>Strings and slash-separated paths\<close>

text \<open>
  Go strings are byte sequences; they are modelled as \<open>string\<close> (a list of
  \<open>char\<close>, each one byte). The index construction and path resolution of
  \<^verbatim>\<open>filesys.go\<close> call \<^verbatim>\<open>strings.TrimRight(s, "/")\<close>,
  \<^verbatim>\<open>strings.TrimLeft(s, "/")\<close>, \<^verbatim>\<open>strings.HasSuffix(s, "/")\<close>,
  \<^verbatim>\<open>path.Clean\<close>, \<^verbatim>\<open>path.Dir\<close> and \<^verbatim>\<open>path.Base\<close>
  of the Go standard library. They are transcribed here from the library's algorithm, so
  that the repository's functions can be evaluated on concrete paths.
\<close>

definition TrimRight :: "string \<Rightarrow> string" where
  "TrimRight s = rev (dropWhile (\<lambda>c. c = CHR ''/'') (rev s))"

definition TrimLeft :: "string \<Rightarrow> string" where
  "TrimLeft s = dropWhile (\<lambda>c. c = CHR ''/'') s"

definition HasSuffix :: "string \<Rightarrow> bool" where
  "HasSuffix s = (case rev s of [] \<Rightarrow> False | c # _ \<Rightarrow> c = CHR ''/'')"

text \<open>
  \<^verbatim>\<open>path.Clean\<close>. The library writes the result into a buffer \<open>out\<close> whose
  length is its write index \<open>w\<close>; \<open>dotdot\<close> is the index below which a
  \<^verbatim>\<open>..\<close> element must not backtrack. \<open>backtrack\<close> is the inner loop
  \<^verbatim>\<open>out.w--; for out.w > dotdot && out.index(out.w) != '/' { out.w-- }\<close>.
\<close>

fun backtrack :: "nat \<Rightarrow> string \<Rightarrow> nat \<Rightarrow> nat" where
  "backtrack dotdot buf 0 = 0"
| "backtrack dotdot buf (Suc w) =
     (if Suc w > dotdot \<and> buf ! Suc w \<noteq> CHR ''/'' then backtrack dotdot buf w else Suc w)"

function clean_loop :: "bool \<Rightarrow> nat \<Rightarrow> string \<Rightarrow> string \<Rightarrow> string" where
  "clean_loop rooted dotdot out [] = out"
| "clean_loop rooted dotdot out (c # rest) =
     (if c = CHR ''/'' then clean_loop rooted dotdot out rest
      else if c = CHR ''.'' \<and> (rest = [] \<or> hd rest = CHR ''/'')
        then clean_loop rooted dotdot out rest
      else if c = CHR ''.'' \<and> take 1 rest = ''.''
              \<and> (drop 1 rest = [] \<or> hd (drop 1 rest) = CHR ''/'')
        then (if length out > dotdot
                then clean_loop rooted dotdot
                       (take (backtrack dotdot out (length out - 1)) out) (drop 1 rest)
              else if \<not> rooted
                then (let out' = (if length out > 0 then out @ ''/'' else out) @ ''..''
                      in clean_loop rooted (length out') out' (drop 1 rest))
              else clean_loop rooted dotdot out (drop 1 rest))
      else (let out' = (if (rooted \<and> length out \<noteq> 1) \<or> (\<not> rooted \<and> length out \<noteq> 0)
                        then out @ ''/'' else out)
            in clean_loop rooted dotdot
                 (out' @ takeWhile (\<lambda>x. x \<noteq> CHR ''/'') (c # rest))
                 (dropWhile (\<lambda>x. x \<noteq> CHR ''/'') (c # rest))))"
  by pat_completeness auto
termination
  by (relation "measure (\<lambda>(rooted, dotdot, out, p). length p)")
     (auto simp: le_imp_less_Suc length_dropWhile_le)

definition path_Clean :: "string \<Rightarrow> string" where
  "path_Clean path =
     (if path = [] then ''.''
      else (let rooted = (hd path = CHR ''/'');
                out = (if rooted then clean_loop True 1 ''/'' (tl path)
                       else clean_loop False 0 [] path)
            in if out = [] then ''.'' else out))"

text \<open>\<^verbatim>\<open>path.Dir\<close>: the path up to and including its last slash, cleaned.\<close>

definition path_Dir :: "string \<Rightarrow> string" where
  "path_Dir path = path_Clean (rev (dropWhile (\<lambda>c. c \<noteq> CHR ''/'') (rev path)))"

text \<open>\<^verbatim>\<open>path.Base\<close>: the last element of the path, trailing slashes removed.\<close>

definition path_Base :: "string \<Rightarrow> string" where
  "path_Base path =
     (if path = [] then ''.''
      else (let p = TrimRight path;
                b = rev (takeWhile (\<lambda>c. c \<noteq> CHR ''/'') (rev p))
            in if b = [] then ''/'' else b))"

section \<open>Errors, archive entries and index nodes\<close>

text \<open>
  The four sentinel errors of \<^verbatim>\<open>filesys.go\<close>, the errors of the standard library
  the code returns or receives (\<^verbatim>\<open>os.ErrNotExist\<close>, \<^verbatim>\<open>os.ErrClosed\<close>,
  \<^verbatim>\<open>os.ErrInvalid\<close>, \<^verbatim>\<open>io.EOF\<close>), an opaque error of the archive or the
  operating system, and \<^verbatim>\<open>os.PathError{Op, Path, Err}\<close>.
\<close>

datatype goerror =
    errFileClosed
  | errFileSystemClosed
  | errNotDirectory
  | errDirectory
  | ErrNotExist
  | ErrClosed
  | ErrInvalid
  | EOF
  | External nat
  | PathError string string goerror

text \<open>
  The message of an error (\<^verbatim>\<open>Error()\<close>); a path error prints as
  \<^verbatim>\<open>Op + " " + Path + ": " + Err.Error()\<close>. \<open>Contains\<close> is
  \<^verbatim>\<open>strings.Contains\<close>.
\<close>

fun Error :: "goerror \<Rightarrow> string" where
  "Error errFileClosed = ''file closed''"
| "Error errFileSystemClosed = ''filesystem closed''"
| "Error errNotDirectory = ''not a directory''"
| "Error errDirectory = ''is a directory''"
| "Error ErrNotExist = ''file does not exist''"
| "Error ErrClosed = ''file already closed''"
| "Error ErrInvalid = ''invalid argument''"
| "Error EOF = ''EOF''"
| "Error (External n) = ''external error''"
| "Error (PathError op path err) = op @ '' '' @ path @ '': '' @ Error err"

fun Contains :: "string \<Rightarrow> string \<Rightarrow> bool" where
  "Contains [] substr = (substr = [])"
| "Contains (c # s) substr = (take (length substr) (c # s) = substr \<or> Contains s substr)"

text \<open>
  A Go call either returns or panics. The only panic the code can raise is the nil
  pointer dereference of \<^verbatim>\<open>f.fileInfo.zipFile.Open()\<close> when \<^verbatim>\<open>zipFile\<close>
  is nil.
\<close>

datatype 'a exec = Panic | Done 'a

type_synonym byte = "8 word"

text \<open>
  \<^verbatim>\<open>zip.File\<close>, as far as the code reads it: the entry name, the legacy 32-bit
  and the extended 64-bit uncompressed size, the directory bit of the external
  attributes, the modification time, and what \<^verbatim>\<open>Open()\<close> yields (an error of the
  archive layer or the decompressed bytes).
\<close>

record zipFile =
  zf_Name :: string
  zf_UncompressedSize :: "32 word"
  zf_UncompressedSize64 :: "64 word"
  zf_attrDir :: bool
  zf_ModTime :: int
  zf_Open :: "goerror + byte list"

text \<open>
  \<^verbatim>\<open>zip.FileHeader.Mode().IsDir()\<close>: the external attributes say so, or the name
  ends with a slash.
\<close>

definition zf_IsDir :: "zipFile \<Rightarrow> bool" where
  "zf_IsDir zf = (zf_attrDir zf \<or> HasSuffix (zf_Name zf))"

text \<open>
  \<^verbatim>\<open>fileInfo\<close>. The index shares one node between several keys and between the map
  and the child lists, so nodes live in a store (a list, a pointer being an index into
  it) and \<^verbatim>\<open>*fileInfo\<close> is an address. The fields \<^verbatim>\<open>fs\<close>,
  \<^verbatim>\<open>tempPath\<close> and \<^verbatim>\<open>mutex\<close> are never written nor read by the code and are
  left out.
\<close>

type_synonym paddr = nat

record fileInfo =
  fi_name :: string
  fi_zipFile :: "zipFile option"
  fi_fileInfos :: "paddr list"

text \<open>\<^verbatim>\<open>fileInfoMap\<close> is \<^verbatim>\<open>map[string]*fileInfo\<close>; a nil map is the empty one.\<close>

type_synonym fileInfoMap = "(string \<times> paddr) list"

type_synonym index = "fileInfo list \<times> fileInfoMap"

definition FindOrCreate :: "string \<Rightarrow> index \<Rightarrow> paddr \<times> index" where
  "FindOrCreate name s =
     (case s of (objs, fm) \<Rightarrow>
        (let strippedName = TrimRight name in
         case map_of fm name of
           Some fi \<Rightarrow> (fi, objs, fm)
         | None \<Rightarrow>
             (let fi = length objs;
                  objs' = objs @ [\<lparr>fi_name = name, fi_zipFile = None, fi_fileInfos = []\<rparr>];
                  fm' = AList.update name fi fm;
                  fm'' = (if strippedName \<noteq> name then AList.update strippedName fi fm'
                          else fm')
              in (fi, objs', fm''))))"

text \<open>The local \<^verbatim>\<open>dirName\<close> of \<^verbatim>\<open>FindOrCreateParent\<close>.\<close>

definition dirName :: "string \<Rightarrow> string" where
  "dirName name =
     (let strippedName = TrimRight name;
          d = path_Dir strippedName
      in if d = ''.'' then ''/''
         else if \<not> HasSuffix d then d @ ''/''
         else d)"

definition FindOrCreateParent :: "string \<Rightarrow> index \<Rightarrow> paddr \<times> index" where
  "FindOrCreateParent name s = FindOrCreate (dirName name) s"

subsection \<open>Accessors of an index node\<close>

definition Name :: "fileInfo \<Rightarrow> string" where
  "Name fi = path_Base (fi_name fi)"

text \<open>\<^verbatim>\<open>Size\<close> returns \<^verbatim>\<open>int64\<close>: the 64-bit pattern, read with \<open>sint\<close>.\<close>

definition Size :: "fileInfo \<Rightarrow> 64 word" where
  "Size fi =
     (case fi_zipFile fi of
        None \<Rightarrow> 0
      | Some zf \<Rightarrow>
          if zf_UncompressedSize64 zf = 0 then ucast (zf_UncompressedSize zf)
          else zf_UncompressedSize64 zf)"

definition IsDir :: "fileInfo \<Rightarrow> bool" where
  "IsDir fi = (case fi_zipFile fi of None \<Rightarrow> True | Some zf \<Rightarrow> zf_IsDir zf)"

text \<open>
  \<^verbatim>\<open>os.FileMode\<close> as the pair of the permission bits and the directory flag:
  \<^verbatim>\<open>0555 | os.ModeDir\<close> or \<^verbatim>\<open>0444\<close>.
\<close>

definition Mode :: "fileInfo \<Rightarrow> nat \<times> bool" where
  "Mode fi = (if fi_zipFile fi = None \<or> IsDir fi then (365, True) else (292, False))"

definition dirTime :: int where
  "dirTime = 978307200"

definition ModTime :: "fileInfo \<Rightarrow> int" where
  "ModTime fi = (case fi_zipFile fi of None \<Rightarrow> dirTime | Some zf \<Rightarrow> zf_ModTime zf)"

definition readdir :: "fileInfo \<Rightarrow> goerror + paddr list" where
  "readdir fi = (if \<not> snd (Mode fi) then Inl errNotDirectory else Inr (fi_fileInfos fi))"

section \<open>The filesystem: New, Open, Close\<close>

text \<open>
  \<^verbatim>\<open>ZipFS\<close>. \<open>readerAt\<close> and \<open>closer\<close> say whether the field is non-nil;
  \<open>objects\<close> is the store of the index nodes.
\<close>

record ZipFS =
  readerAt :: bool
  closer :: bool
  reader :: "zipFile list option"
  fileInfos :: fileInfoMap
  objects :: "fileInfo list"

text \<open>The body of the first loop of \<^verbatim>\<open>New\<close>, for one archive entry.\<close>

definition addEntry :: "zipFile \<Rightarrow> index \<Rightarrow> index" where
  "addEntry zf s =
     (case FindOrCreate (zf_Name zf) s of (fi, objs1, fm1) \<Rightarrow>
        (let objs2 = objs1[fi := (objs1 ! fi)\<lparr>fi_zipFile := Some zf\<rparr>] in
         case FindOrCreateParent (zf_Name zf) (objs2, fm1) of (fiParent, objs3, fm3) \<Rightarrow>
           (objs3[fiParent := (objs3 ! fiParent)
                     \<lparr>fi_fileInfos := fi_fileInfos (objs3 ! fiParent) @ [fi]\<rparr>],
            fm3)))"

text \<open>
  The body of the second loop: \<^verbatim>\<open>sort.Sort\<close> of a child list longer than one, by
  \<^verbatim>\<open>Name()\<close> under the byte-wise order of Go strings. \<^verbatim>\<open>sort.Sort\<close> leaves the
  order of children with equal names open; the model takes the stable order.
\<close>

definition sortDir :: "paddr \<Rightarrow> fileInfo list \<Rightarrow> fileInfo list" where
  "sortDir p objs =
     (if length (fi_fileInfos (objs ! p)) > 1
      then objs[p := (objs ! p)
                  \<lparr>fi_fileInfos := sort_key (\<lambda>c. Name (objs ! c)) (fi_fileInfos (objs ! p))\<rparr>]
      else objs)"

text \<open>
  \<^verbatim>\<open>New\<close>. Its argument is what opening the named file, \<^verbatim>\<open>Stat\<close> and
  \<^verbatim>\<open>zip.NewReader\<close> give: an error, or the entries of the archive in order.
\<close>

definition New :: "goerror + zipFile list \<Rightarrow> goerror + ZipFS" where
  "New archive =
     (case archive of
        Inl err \<Rightarrow> Inl err
      | Inr files \<Rightarrow>
          (case fold addEntry files ([], []) of (objs, fm) \<Rightarrow>
             Inr \<lparr>readerAt = True, closer = True, reader = Some files, fileInfos = fm,
                  objects = fold sortDir (map snd fm) objs\<rparr>))"

definition openFileInfo :: "ZipFS \<Rightarrow> string \<Rightarrow> goerror + paddr" where
  "openFileInfo fs name =
     (if \<not> readerAt fs then Inl errFileSystemClosed
      else (let name' = path_Clean name;
                trimmedName = TrimLeft name'
            in case map_of (fileInfos fs) trimmedName of
                 None \<Rightarrow> Inl (PathError ''Open'' name' ErrNotExist)
               | Some fi \<Rightarrow> Inr fi))"

text \<open>
  \<^verbatim>\<open>ZipFS.Close\<close>; \<open>cerr\<close> is what closing the underlying file returns.
\<close>

definition ZipFS_Close :: "goerror option \<Rightarrow> ZipFS \<Rightarrow> goerror option \<times> ZipFS" where
  "ZipFS_Close cerr fs =
     (let fs1 = fs\<lparr>reader := None, readerAt := False\<rparr> in
      if closer fs1 then (cerr, fs1\<lparr>closer := False, fileInfos := []\<rparr>)
      else (None, fs1\<lparr>fileInfos := []\<rparr>))"

section \<open>File handles\<close>

text \<open>
  The decompression stream \<^verbatim>\<open>zipFile.Open()\<close> returns (an \<^verbatim>\<open>io.ReadCloser\<close>):
  the bytes not yet read and whether it has been closed. The temporary
  \<^verbatim>\<open>*os.File\<close>: its name, contents, read position and whether it has been closed.
  Each is referenced by one handle only and is kept in the handle.
\<close>

record zstream =
  zs_data :: "byte list"
  zs_closed :: bool

record osFile =
  of_name :: string
  of_data :: "byte list"
  of_pos :: nat
  of_closed :: bool

text \<open>
  \<^verbatim>\<open>fileReader\<close>. \<open>fr_readdir\<close> is a slice: \<open>None\<close> is the nil slice, which
  \<^verbatim>\<open>Readdir\<close> tells apart from an empty one.
\<close>

record fileReader =
  fr_name :: string
  fr_fileInfo :: paddr
  fr_reader :: "zstream option"
  fr_file :: "osFile option"
  fr_closed :: bool
  fr_readdir :: "paddr list option"

definition openReader :: "paddr \<Rightarrow> string \<Rightarrow> fileReader" where
  "openReader fi name =
     \<lparr>fr_name = name, fr_fileInfo = fi, fr_reader = None, fr_file = None,
      fr_closed = False, fr_readdir = None\<rparr>"

definition Open :: "ZipFS \<Rightarrow> string \<Rightarrow> goerror + fileReader" where
  "Open fs name =
     (case openFileInfo fs name of
        Inl err \<Rightarrow> Inl err
      | Inr fi \<Rightarrow> Inr (openReader fi name))"

definition pathError :: "fileReader \<Rightarrow> string \<Rightarrow> goerror \<Rightarrow> goerror" where
  "pathError f op err = PathError op (fr_name f) err"

definition Stat :: "fileReader \<Rightarrow> paddr \<times> goerror option" where
  "Stat f = (fr_fileInfo f, None)"

subsection \<open>The operating system and the streams, as the handle uses them\<close>

text \<open>
  The temporary directory and the calls into it are outside the repository. The state
  they act on: the temporary files on disk, the names \<^verbatim>\<open>ioutil.TempFile\<close> has
  created, every \<^verbatim>\<open>os.Remove\<close> call made, and a script of outcomes: each call that
  can fail for a reason of the environment takes the next outcome of the script
  (\<open>None\<close>, and an exhausted script, mean success). What the Go library fixes is
  written out: an \<^verbatim>\<open>*os.File\<close> that has been closed fails every later call with
  \<^verbatim>\<open>os.ErrClosed\<close>, also a second \<^verbatim>\<open>Close\<close>; \<^verbatim>\<open>os.Remove\<close> of a name
  that is not on disk fails with \<^verbatim>\<open>os.ErrNotExist\<close>; a read at the end of the data
  returns \<^verbatim>\<open>io.EOF\<close>.
\<close>

record world =
  tmpfiles :: "string list"
  created :: "string list"
  removes :: "string list"
  faults :: "goerror option list"

definition fault :: "world \<Rightarrow> goerror option \<times> world" where
  "fault w = (case faults w of [] \<Rightarrow> (None, w) | e # es \<Rightarrow> (e, w\<lparr>faults := es\<rparr>))"

definition zs_Close :: "zstream \<Rightarrow> world \<Rightarrow> goerror option \<times> zstream \<times> world" where
  "zs_Close r w = (case fault w of (e, w') \<Rightarrow> (e, r\<lparr>zs_closed := True\<rparr>, w'))"

definition zs_Read :: "zstream \<Rightarrow> nat \<Rightarrow> (byte list \<times> goerror option) \<times> zstream" where
  "zs_Read r n =
     (if zs_closed r then (([], Some ErrClosed), r)
      else if n = 0 then (([], None), r)
      else if zs_data r = [] then (([], Some EOF), r)
      else ((take n (zs_data r), None), r\<lparr>zs_data := drop n (zs_data r)\<rparr>))"

definition of_Read :: "osFile \<Rightarrow> nat \<Rightarrow> (byte list \<times> goerror option) \<times> osFile" where
  "of_Read t n =
     (if of_closed t then (([], Some ErrClosed), t)
      else if n = 0 then (([], None), t)
      else if of_pos t \<ge> length (of_data t) then (([], Some EOF), t)
      else ((take n (drop (of_pos t) (of_data t)), None),
            t\<lparr>of_pos := min (of_pos t + n) (length (of_data t))\<rparr>))"

definition of_Seek ::
  "osFile \<Rightarrow> int \<Rightarrow> int \<Rightarrow> world \<Rightarrow> (int \<times> goerror option) \<times> osFile \<times> world" where
  "of_Seek t offset whence w =
     (if of_closed t then ((0, Some ErrClosed), t, w)
      else case fault w of
        (Some err, w') \<Rightarrow> ((0, Some err), t, w')
      | (None, w') \<Rightarrow>
          (let target = (if whence = 0 then offset
                         else if whence = 1 then int (of_pos t) + offset
                         else int (length (of_data t)) + offset)
           in if whence < 0 \<or> whence > 2 \<or> target < 0 then ((0, Some ErrInvalid), t, w')
              else ((target, None), t\<lparr>of_pos := nat target\<rparr>, w')))"

definition of_Close :: "osFile \<Rightarrow> world \<Rightarrow> goerror option \<times> osFile \<times> world" where
  "of_Close t w =
     (if of_closed t then (Some ErrClosed, t, w)
      else case fault w of (e, w') \<Rightarrow> (e, t\<lparr>of_closed := True\<rparr>, w'))"

definition os_Remove :: "string \<Rightarrow> world \<Rightarrow> goerror option \<times> world" where
  "os_Remove name w =
     (let w1 = w\<lparr>removes := removes w @ [name]\<rparr> in
      if name \<notin> set (tmpfiles w1) then (Some ErrNotExist, w1)
      else case fault w1 of
        (Some err, w2) \<Rightarrow> (Some err, w2)
      | (None, w2) \<Rightarrow> (None, w2\<lparr>tmpfiles := removeAll name (tmpfiles w2)\<rparr>))"

definition ioutil_TempFile :: "world \<Rightarrow> (goerror + osFile) \<times> world" where
  "ioutil_TempFile w =
     (case fault w of
        (Some err, w') \<Rightarrow> (Inl err, w')
      | (None, w') \<Rightarrow>
          (let name = ''/tmp/zipfs'' @ replicate (length (created w')) (CHR ''0'') in
           (Inr \<lparr>of_name = name, of_data = [], of_pos = 0, of_closed = False\<rparr>,
            w'\<lparr>tmpfiles := tmpfiles w' @ [name], created := created w' @ [name]\<rparr>)))"

definition io_Copy ::
  "osFile \<Rightarrow> zstream \<Rightarrow> world \<Rightarrow> goerror option \<times> osFile \<times> zstream \<times> world" where
  "io_Copy dst src w =
     (case fault w of
        (Some err, w') \<Rightarrow> (Some err, dst, src, w')
      | (None, w') \<Rightarrow>
          (None,
           dst\<lparr>of_data := take (of_pos dst) (of_data dst) @ zs_data src,
               of_pos := of_pos dst + length (zs_data src)\<rparr>,
           src\<lparr>zs_data := []\<rparr>, w'))"

subsection \<open>Materialising an entry into a temporary file\<close>

text \<open>
  The package-level \<^verbatim>\<open>createTempFile(f *zip.File)\<close>. \<open>cleanup\<close> is
  \<^verbatim>\<open>tempFile.Close(); os.Remove(tempFile.Name())\<close> followed by the deferred
  \<^verbatim>\<open>reader.Close()\<close>, all results dropped.
\<close>

definition cleanup :: "osFile \<Rightarrow> zstream \<Rightarrow> world \<Rightarrow> world" where
  "cleanup t r w =
     (case of_Close t w of (_, t1, w1) \<Rightarrow>
        case os_Remove (of_name t1) w1 of (_, w2) \<Rightarrow>
          case zs_Close r w2 of (_, _, w3) \<Rightarrow> w3)"

definition createTempFile ::
  "zipFile option \<Rightarrow> world \<Rightarrow> ((goerror + osFile) \<times> world) exec" where
  "createTempFile f w =
     (case f of
        None \<Rightarrow> Panic
      | Some zf \<Rightarrow>
          Done (case zf_Open zf of
                  Inl err \<Rightarrow> (Inl err, w)
                | Inr bytes \<Rightarrow>
                    (let reader = \<lparr>zs_data = bytes, zs_closed = False\<rparr> in
                     case ioutil_TempFile w of
                       (Inl err, w1) \<Rightarrow>
                         (case zs_Close reader w1 of (_, _, w2) \<Rightarrow> (Inl err, w2))
                     | (Inr tempFile, w1) \<Rightarrow>
                         (case io_Copy tempFile reader w1 of
                            (Some err, t2, r2, w2) \<Rightarrow> (Inl err, cleanup t2 r2 w2)
                          | (None, t2, r2, w2) \<Rightarrow>
                              (case of_Seek t2 0 0 w2 of
                                 ((_, Some err), t3, w3) \<Rightarrow> (Inl err, cleanup t3 r2 w3)
                               | ((_, None), t3, w3) \<Rightarrow>
                                   (case zs_Close r2 w3 of (_, _, w4) \<Rightarrow>
                                      (Inr t3, w4)))))))"

text \<open>The method \<^verbatim>\<open>(f *fileReader) createTempFile()\<close>.\<close>

definition fileReader_createTempFile ::
  "fileInfo list \<Rightarrow> fileReader \<Rightarrow> world \<Rightarrow> (goerror option \<times> fileReader \<times> world) exec" where
  "fileReader_createTempFile objs f w =
     (case (case fr_reader f of
              None \<Rightarrow> (None, f, w)
            | Some r \<Rightarrow>
                (case zs_Close r w of
                   (Some err, r', w') \<Rightarrow> (Some err, f\<lparr>fr_reader := Some r'\<rparr>, w')
                 | (None, r', w') \<Rightarrow> (None, f\<lparr>fr_reader := None\<rparr>, w'))) of
        (Some err, f1, w1) \<Rightarrow> Done (Some err, f1, w1)
      | (None, f1, w1) \<Rightarrow>
          (case fr_file f1 of
             Some t \<Rightarrow> Done (None, f1, w1)
           | None \<Rightarrow>
               (case createTempFile (fi_zipFile (objs ! fr_fileInfo f1)) w1 of
                  Panic \<Rightarrow> Panic
                | Done (Inl err, w2) \<Rightarrow> Done (Some err, f1, w2)
                | Done (Inr osf, w2) \<Rightarrow> Done (None, f1\<lparr>fr_file := Some osf\<rparr>, w2))))"

subsection \<open>Close, Read, Seek, Readdir\<close>

definition Close :: "fileReader \<Rightarrow> world \<Rightarrow> goerror option \<times> fileReader \<times> world" where
  "Close f w =
     (case (case fr_reader f of
              None \<Rightarrow> ([], f, w)
            | Some r \<Rightarrow>
                (case zs_Close r w of (err, r', w') \<Rightarrow> ([err], f\<lparr>fr_reader := Some r'\<rparr>, w'))) of
        (errs1, f1, w1) \<Rightarrow>
          (case (case fr_file f1 of
                   None \<Rightarrow> ([], errs1, f1, w1)
                 | Some t \<Rightarrow>
                     (case of_Close t w1 of (err, t', w') \<Rightarrow>
                        (of_name t, errs1 @ [err], f1\<lparr>fr_file := Some t'\<rparr>, w'))) of
             (tempFile, errs2, f2, w2) \<Rightarrow>
               (case (if tempFile \<noteq> []
                      then (case os_Remove tempFile w2 of (err, w') \<Rightarrow> (errs2 @ [err], w'))
                      else (errs2, w2)) of
                  (errs3, w3) \<Rightarrow>
                    ((case List.map_filter id errs3 of
                        [] \<Rightarrow> None
                      | err # _ \<Rightarrow> Some (pathError f ''Close'' err)),
                     f2\<lparr>fr_closed := True\<rparr>, w3))))"

text \<open>
  \<^verbatim>\<open>Read(p)\<close>: \<open>n\<close> is \<^verbatim>\<open>len(p)\<close>; the result is the bytes written into
  \<^verbatim>\<open>p\<close> (their number is the returned count) and the error.
\<close>

definition Read ::
  "fileInfo list \<Rightarrow> fileReader \<Rightarrow> nat \<Rightarrow> ((byte list \<times> goerror option) \<times> fileReader) exec" where
  "Read objs f n =
     (if fr_closed f then Done (([], Some (pathError f ''Read'' errFileClosed)), f)
      else case fr_file f of
        Some t \<Rightarrow> (case of_Read t n of (res, t') \<Rightarrow> Done (res, f\<lparr>fr_file := Some t'\<rparr>))
      | None \<Rightarrow>
          (case fr_reader f of
             Some r \<Rightarrow>
               (case zs_Read r n of (res, r') \<Rightarrow> Done (res, f\<lparr>fr_reader := Some r'\<rparr>))
           | None \<Rightarrow>
               (case fi_zipFile (objs ! fr_fileInfo f) of
                  None \<Rightarrow> Panic
                | Some zf \<Rightarrow>
                    (case zf_Open zf of
                       Inl err \<Rightarrow> Done (([], Some err), f)
                     | Inr bytes \<Rightarrow>
                         (case zs_Read \<lparr>zs_data = bytes, zs_closed = False\<rparr> n of
                            (res, r') \<Rightarrow> Done (res, f\<lparr>fr_reader := Some r'\<rparr>))))))"

definition Seek ::
  "fileInfo list \<Rightarrow> fileReader \<Rightarrow> int \<Rightarrow> int \<Rightarrow> world
     \<Rightarrow> ((int \<times> goerror option) \<times> fileReader \<times> world) exec" where
  "Seek objs f offset whence w =
     (if fr_closed f then Done ((0, Some (pathError f ''Seek'' errFileClosed)), f, w)
      else case (case fr_reader f of
                   None \<Rightarrow> (None, f, w)
                 | Some r \<Rightarrow>
                     (case zs_Close r w of (err, r', w') \<Rightarrow>
                        (err, f\<lparr>fr_reader := Some r'\<rparr>, w'))) of
        (Some err, f1, w1) \<Rightarrow> Done ((0, Some err), f1, w1)
      | (None, f1, w1) \<Rightarrow>
          if fr_file f1 = None \<and> offset = 0 \<and> whence = 0
          then (case fi_zipFile (objs ! fr_fileInfo f1) of
                  None \<Rightarrow> Panic
                | Some zf \<Rightarrow>
                    (case zf_Open zf of
                       Inl err \<Rightarrow> Done ((0, Some err), f1\<lparr>fr_reader := None\<rparr>, w1)
                     | Inr bytes \<Rightarrow>
                         Done ((0, None),
                               f1\<lparr>fr_reader := Some \<lparr>zs_data = bytes, zs_closed = False\<rparr>\<rparr>,
                               w1)))
          else (case fileReader_createTempFile objs f1 w1 of
                  Panic \<Rightarrow> Panic
                | Done (Some err, f2, w2) \<Rightarrow> Done ((0, Some err), f2, w2)
                | Done (None, f2, w2) \<Rightarrow>
                    (case fr_file f2 of
                       None \<Rightarrow> Done ((0, Some ErrInvalid), f2, w2)
                     | Some t \<Rightarrow>
                         (case of_Seek t offset whence w2 of (res, t', w3) \<Rightarrow>
                            Done (res, f2\<lparr>fr_file := Some t'\<rparr>, w3)))))"

text \<open>
  \<^verbatim>\<open>Readdir(count)\<close> returns the entries (a nil slice is the empty list) and the
  error, and updates the cursor \<^verbatim>\<open>f.readdir\<close>.
\<close>

definition Readdir ::
  "fileInfo list \<Rightarrow> fileReader \<Rightarrow> int \<Rightarrow> (paddr list \<times> goerror option) \<times> fileReader" where
  "Readdir objs f count =
     (if count > 0
      then (case (case fr_readdir f of
                    None \<Rightarrow> readdir (objs ! fr_fileInfo f)
                  | Some l \<Rightarrow> Inr l) of
              Inl err \<Rightarrow> (([], Some (pathError f ''Readdir'' err)), f)
            | Inr l \<Rightarrow>
                if int (length l) \<ge> count
                then ((take (nat count) l, None), f\<lparr>fr_readdir := Some (drop (nat count) l)\<rparr>)
                else ((l, Some EOF), f\<lparr>fr_readdir := None\<rparr>))
      else (case readdir (objs ! fr_fileInfo f) of
              Inl err \<Rightarrow> (([], Some (pathError f ''Readdir'' err)), f)
            | Inr l \<Rightarrow> ((l, None), f)))"

subsection \<open>Sequences of seeks\<close>



subsection \<open>Paginated listing until the end-of-listing signal\<close>

text \<open>
  A caller that lists a directory in pages calls \<^verbatim>\<open>Readdir(count)\<close> again and again
  until a call returns an error. \<open>pages\<close> is the list of the results of these
  calls, in order.
\<close>

function pages ::
  "fileInfo list \<Rightarrow> fileReader \<Rightarrow> int \<Rightarrow> (paddr list \<times> goerror option) list" where
  "pages objs f count =
     (case Readdir objs f count of
        ((l, err), f') \<Rightarrow>
          (l, err) # (if err = None \<and> count > 0 then pages objs f' count else []))"
  by pat_completeness auto
termination
  apply (relation "measure (\<lambda>(objs, f, count).
           case fr_readdir f of
             None \<Rightarrow> Suc (length (fi_fileInfos (objs ! fr_fileInfo f)))
           | Some l \<Rightarrow> length l)")
   apply simp
  apply (auto simp: Readdir_def readdir_def split: option.splits sum.splits if_splits)
  done

declare pages.simps [simp del]

section \<open>Invariants of the index construction\<close>

text \<open>
  What holds of the store and the map after every entry \<^verbatim>\<open>New\<close> has processed;
  \<open>S\<close> is the set of the entries processed so far. Every key maps to a stored node
  whose name is the key, or the key with trailing slashes; the trimmed form of a key is
  a key; every child listed in a node is stored, and the key of its parent directory
  maps to that node; the archive record of a node is a processed entry with the node's
  name up to trailing slashes.
\<close>

definition index_wf :: "zipFile set \<Rightarrow> index \<Rightarrow> bool" where
  "index_wf S s =
     (case s of (objs, fm) \<Rightarrow>
        (\<forall>k p. map_of fm k = Some p \<longrightarrow>
           p < length objs \<and> (fi_name (objs ! p) = k \<or> TrimRight (fi_name (objs ! p)) = k))
      \<and> (\<forall>k. map_of fm k \<noteq> None \<longrightarrow> map_of fm (TrimRight k) \<noteq> None)
      \<and> (\<forall>q < length objs. \<forall>c \<in> set (fi_fileInfos (objs ! q)).
           c < length objs \<and> map_of fm (dirName (fi_name (objs ! c))) = Some q)
      \<and> (\<forall>p < length objs. \<forall>zf. fi_zipFile (objs ! p) = Some zf \<longrightarrow>
           zf \<in> S \<and> TrimRight (zf_Name zf) = TrimRight (fi_name (objs ! p))))"

text \<open>
  The later index extends the earlier: nodes keep their address and name, child lists
  only gain elements, an archive record stays set, and a key that ends with a slash
  keeps its node.
\<close>

definition index_ext :: "index \<Rightarrow> index \<Rightarrow> bool" where
  "index_ext s s' =
     (case s of (objs, fm) \<Rightarrow> case s' of (objs', fm') \<Rightarrow>
        length objs \<le> length objs'
      \<and> (\<forall>p < length objs.
           fi_name (objs' ! p) = fi_name (objs ! p)
         \<and> set (fi_fileInfos (objs ! p)) \<subseteq> set (fi_fileInfos (objs' ! p))
         \<and> (fi_zipFile (objs ! p) \<noteq> None \<longrightarrow> fi_zipFile (objs' ! p) \<noteq> None))
      \<and> (\<forall>k q. HasSuffix k \<longrightarrow> map_of fm k = Some q \<longrightarrow> map_of fm' k = Some q))"

text \<open>
  The entry has a node that is a child of the node at the key of its parent directory.
\<close>

definition entry_linked :: "index \<Rightarrow> zipFile \<Rightarrow> bool" where
  "entry_linked s zf =
     (case s of (objs, fm) \<Rightarrow>
        \<exists>p c. map_of fm (dirName (zf_Name zf)) = Some p \<and> p < length objs \<and> c < length objs
          \<and> c \<in> set (fi_fileInfos (objs ! p))
          \<and> TrimRight (fi_name (objs ! c)) = TrimRight (zf_Name zf)
          \<and> fi_zipFile (objs ! c) \<noteq> None)"

text \<open>The child list of the node at \<open>p\<close> is in ascending order of \<^verbatim>\<open>Name()\<close>.\<close>

definition sorted_at :: "fileInfo list \<Rightarrow> paddr \<Rightarrow> bool" where
  "sorted_at objs p = sorted (map (\<lambda>c. Name (objs ! c)) (fi_fileInfos (objs ! p)))"

section \<open>Example archives\<close>

text \<open>
  A three-byte file entry and an empty directory entry with the given name, an archive
  with two top-level files, a directory entry and a file in it, and an operating system
  with no temporary file and no failure.
\<close>

definition sample :: "string \<Rightarrow> zipFile" where
  "sample n = \<lparr>zf_Name = n, zf_UncompressedSize = 3, zf_UncompressedSize64 = 0,
               zf_attrDir = False, zf_ModTime = 0, zf_Open = Inr [1, 2, 3]\<rparr>"

definition sampleDir :: "string \<Rightarrow> zipFile" where
  "sampleDir n = \<lparr>zf_Name = n, zf_UncompressedSize = 0, zf_UncompressedSize64 = 0,
                  zf_attrDir = True, zf_ModTime = 0, zf_Open = Inr []\<rparr>"

definition exArchive :: "zipFile list" where
  "exArchive = [sample ''b'', sample ''a'', sampleDir ''d/'', sample ''d/c'']"

definition exFS :: ZipFS where
  "exFS = projr (New (Inr exArchive))"

definition idle :: world where
  "idle = \<lparr>tmpfiles = [], created = [], removes = [], faults = []\<rparr>"

text \<open>
  A directory entry whose record carries a size of seven bytes in the 64-bit field, and
  a file entry with both size fields set.
\<close>

definition sizedDir :: zipFile where
  "sizedDir = \<lparr>zf_Name = ''d/'', zf_UncompressedSize = 0, zf_UncompressedSize64 = 7,
                zf_attrDir = True, zf_ModTime = 0, zf_Open = Inr []\<rparr>"

definition bothSizes :: zipFile where
  "bothSizes = \<lparr>zf_Name = ''big'', zf_UncompressedSize = 4294967295,
                 zf_UncompressedSize64 = 5000000000, zf_attrDir = False, zf_ModTime = 0,
                 zf_Open = Inr []\<rparr>"

definition sizedFS :: ZipFS where
  "sizedFS = projr (New (Inr [sizedDir, bothSizes]))"

text \<open>
  The handle on the file \<^verbatim>\<open>b\<close> of the example archive after \<^verbatim>\<open>Seek(2, 0)\<close> has
  materialised it, and the operating system at that moment.
\<close>

definition matHandle :: fileReader where
  "matHandle =
     \<lparr>fr_name = ''b'', fr_fileInfo = 0, fr_reader = None,
      fr_file = Some \<lparr>of_name = ''/tmp/zipfs'', of_data = [1, 2, 3], of_pos = 2,
                      of_closed = False\<rparr>,
      fr_closed = False, fr_readdir = None\<rparr>"

definition matWorld :: world where
  "matWorld = \<lparr>tmpfiles = [''/tmp/zipfs''], created = [''/tmp/zipfs''], removes = [],
               faults = []\<rparr>"



section \<open>Properties\<close>

lemma TrimRight_no_slash: "\<not> HasSuffix (TrimRight s)"
  by (simp add: TrimRight_def HasSuffix_def split: list.splits)
     (metis (mono_tags, lifting) dropWhile_eq_Cons_conv)

subsection \<open>The example archive, evaluated\<close>

lemma dirName_examples:
  "dirName ''b'' = ''/''" "dirName ''a'' = ''/''" "dirName ''d/'' = ''/''"
  "dirName ''d/c'' = ''d/''"
  by (simp_all add: dirName_def TrimRight_def path_Dir_def path_Clean_def HasSuffix_def)

lemma Name_examples:
  "Name \<lparr>fi_name = ''b'', fi_zipFile = z, fi_fileInfos = l\<rparr> = ''b''"
  "Name \<lparr>fi_name = ''a'', fi_zipFile = z, fi_fileInfos = l\<rparr> = ''a''"
  "Name \<lparr>fi_name = ''d/'', fi_zipFile = z, fi_fileInfos = l\<rparr> = ''d''"
  by (simp_all add: Name_def path_Base_def TrimRight_def)

lemma exFS_eq:
  "exFS = \<lparr>readerAt = True, closer = True, reader = Some exArchive,
     fileInfos = [(''b'', 0), (''/'', 1), ([], 1), (''a'', 2), (''d/'', 3), (''d'', 3),
                  (''d/c'', 4)],
     objects = [\<lparr>fi_name = ''b'', fi_zipFile = Some (sample ''b''), fi_fileInfos = []\<rparr>,
                \<lparr>fi_name = ''/'', fi_zipFile = None, fi_fileInfos = [2, 0, 3]\<rparr>,
                \<lparr>fi_name = ''a'', fi_zipFile = Some (sample ''a''), fi_fileInfos = []\<rparr>,
                \<lparr>fi_name = ''d/'', fi_zipFile = Some (sampleDir ''d/''), fi_fileInfos = [4]\<rparr>,
                \<lparr>fi_name = ''d/c'', fi_zipFile = Some (sample ''d/c''),
                   fi_fileInfos = []\<rparr>]\<rparr>"
  by (simp add: exFS_def New_def exArchive_def addEntry_def FindOrCreate_def
      FindOrCreateParent_def dirName_examples sample_def sampleDir_def TrimRight_def sortDir_def
      Name_examples Let_def)

lemma Open_root_exFS: "Open exFS ''/'' = Inr (openReader 1 ''/'')"
  by (simp add: exFS_eq Open_def openFileInfo_def path_Clean_def TrimLeft_def)

lemma objects_exFS:
  "objects exFS =
     [\<lparr>fi_name = ''b'', fi_zipFile = Some (sample ''b''), fi_fileInfos = []\<rparr>,
      \<lparr>fi_name = ''/'', fi_zipFile = None, fi_fileInfos = [2, 0, 3]\<rparr>,
      \<lparr>fi_name = ''a'', fi_zipFile = Some (sample ''a''), fi_fileInfos = []\<rparr>,
      \<lparr>fi_name = ''d/'', fi_zipFile = Some (sampleDir ''d/''), fi_fileInfos = [4]\<rparr>,
      \<lparr>fi_name = ''d/c'', fi_zipFile = Some (sample ''d/c''), fi_fileInfos = []\<rparr>]"
  by (simp add: exFS_eq)

subsection \<open>Directory listing\<close>

lemma Readdir_nonpos_handle: "count \<le> 0 \<Longrightarrow> snd (Readdir objs f count) = f"
  by (simp add: Readdir_def split: sum.splits)

lemma Readdir_nonpos_cursor:
  "count \<le> 0 \<Longrightarrow>
     fst (Readdir objs (f\<lparr>fr_readdir := c\<rparr>) count) = fst (Readdir objs f count)"
  by (simp add: Readdir_def pathError_def split: sum.splits)

lemma Readdir_nonpos_dir:
  "count \<le> 0 \<Longrightarrow> snd (Mode (objs ! fr_fileInfo f)) \<Longrightarrow>
     fst (Readdir objs f count) = (fi_fileInfos (objs ! fr_fileInfo f), None)"
  by (simp add: Readdir_def readdir_def)

text \<open>
  Claim C10. A \<^verbatim>\<open>Readdir\<close> call with \<open>count \<le> 0\<close> leaves the handle, and so its
  pagination cursor, as it was; its result does not depend on the cursor; any call made
  after it returns what it would have returned without it; and on a directory it returns
  the full child list with no error.
\<close>

theorem Readdir_nonpositive_frame:
  "count \<le> 0 \<Longrightarrow>
     snd (Readdir objs f count) = f
     \<and> fst (Readdir objs (f\<lparr>fr_readdir := c\<rparr>) count) = fst (Readdir objs f count)
     \<and> Readdir objs (snd (Readdir objs f count)) n = Readdir objs f n
     \<and> (snd (Mode (objs ! fr_fileInfo f)) \<longrightarrow>
          fst (Readdir objs f count) = (fi_fileInfos (objs ! fr_fileInfo f), None))"
  using Readdir_nonpos_handle [of count objs f]
    Readdir_nonpos_cursor [where count = count and objs = objs and f = f and c = c]
    Readdir_nonpos_dir [of count objs f]
  by simp

text \<open>
  At the root of the example archive, after one page of two entries: a
  \<^verbatim>\<open>Readdir(0)\<close> returns the three children and keeps the cursor on the third.
\<close>

theorem Readdir_nonpositive_frame_witness:
  "(0::int) \<le> 0
   \<and> snd (Mode (objects exFS ! fr_fileInfo (snd (Readdir (objects exFS) (openReader 1 ''/'') 2))))
   \<and> fr_readdir (snd (Readdir (objects exFS) (openReader 1 ''/'') 2)) = Some [3]
   \<and> Readdir (objects exFS) (snd (Readdir (objects exFS) (openReader 1 ''/'') 2)) 0
       = (([2, 0, 3], None), snd (Readdir (objects exFS) (openReader 1 ''/'') 2))
   \<and> Readdir (objects exFS)
         (snd (Readdir (objects exFS) (snd (Readdir (objects exFS) (openReader 1 ''/'') 2)) 0)) 2
       = Readdir (objects exFS) (snd (Readdir (objects exFS) (openReader 1 ''/'') 2)) 2"
  using Readdir_nonpositive_frame [of 0 "objects exFS"
      "snd (Readdir (objects exFS) (openReader 1 ''/'') 2)" None 2]
  by (simp add: Readdir_def readdir_def openReader_def objects_exFS Mode_def)

text \<open>Pages read from a loaded cursor: by induction on what is left of it.\<close>

lemma pages_loaded:
  "0 < count \<Longrightarrow> fr_readdir f = Some l \<Longrightarrow>
     concat (map fst (pages objs f count)) = l
     \<and> map snd (pages objs f count)
         = replicate (length (pages objs f count) - 1) None @ [Some EOF]
     \<and> int (length (fst (last (pages objs f count)))) < count"
proof (induction "length l" arbitrary: l f rule: less_induct)
  case less
  show ?case
  proof (cases "int (length l) \<ge> count")
    case False
    with less.prems show ?thesis
      by (subst (1 2 3 4) pages.simps) (simp add: Readdir_def)
  next
    case True
    let ?f' = "f\<lparr>fr_readdir := Some (drop (nat count) l)\<rparr>"
    have R: "Readdir objs f count = ((take (nat count) l, None), ?f')"
      using True less.prems by (simp add: Readdir_def)
    have "length (drop (nat count) l) < length l"
      using True less.prems by auto
    from less.hyps [OF this less.prems(1), of ?f']
    have IH: "concat (map fst (pages objs ?f' count)) = drop (nat count) l"
      "map snd (pages objs ?f' count)
         = replicate (length (pages objs ?f' count) - 1) None @ [Some EOF]"
      "int (length (fst (last (pages objs ?f' count)))) < count"
      by simp_all
    have ne: "pages objs ?f' count \<noteq> []"
      by (subst pages.simps) (simp split: prod.splits)
    have P: "pages objs f count = (take (nat count) l, None) # pages objs ?f' count"
      by (subst pages.simps) (simp add: R less.prems)
    show ?thesis
      using IH ne unfolding P by (cases "pages objs ?f' count") simp_all
  qed
qed

lemma pages_unloaded:
  assumes "0 < count" "fr_readdir f = None" "snd (Mode (objs ! fr_fileInfo f))"
  shows "pages objs f count
           = pages objs (f\<lparr>fr_readdir := Some (fi_fileInfos (objs ! fr_fileInfo f))\<rparr>) count"
  using assms by (subst (1 2) pages.simps) (simp add: Readdir_def readdir_def)

text \<open>
  Claim C9. For a handle \<open>f\<close> on a directory whose cursor is at the start (as
  \<^verbatim>\<open>Open\<close> returns it) and a fixed \<open>count > 0\<close>, the pages returned by repeated
  \<^verbatim>\<open>Readdir(count)\<close> calls up to the first error, concatenated, are the list a single
  \<^verbatim>\<open>Readdir(0)\<close> returns (with no error) on a handle \<open>g\<close> for the same directory;
  every page but the last comes with no error, the last one comes with \<^verbatim>\<open>io.EOF\<close>,
  and the last page is shorter than \<open>count\<close>.
\<close>

theorem Readdir_pages_concat:
  assumes "0 < count" and "snd (Mode (objs ! fr_fileInfo f))" and "fr_readdir f = None"
    and "fr_fileInfo g = fr_fileInfo f"
  shows "concat (map fst (pages objs f count)) = fst (fst (Readdir objs g 0))
     \<and> snd (fst (Readdir objs g 0)) = None
     \<and> map snd (pages objs f count)
         = replicate (length (pages objs f count) - 1) None @ [Some EOF]
     \<and> int (length (fst (last (pages objs f count)))) < count"
proof -
  let ?f = "f\<lparr>fr_readdir := Some (fi_fileInfos (objs ! fr_fileInfo f))\<rparr>"
  have "fst (Readdir objs g 0) = (fi_fileInfos (objs ! fr_fileInfo f), None)"
    using assms by (simp add: Readdir_def readdir_def)
  moreover have "pages objs f count = pages objs ?f count"
    using assms by (simp add: pages_unloaded)
  moreover note pages_loaded [of count ?f "fi_fileInfos (objs ! fr_fileInfo f)" objs]
  ultimately show ?thesis
    using assms(1) by simp
qed

text \<open>
  The root of the example archive read in pages of two: a full page, then the page with
  the third child and \<^verbatim>\<open>io.EOF\<close>.
\<close>

theorem Readdir_pages_concat_witness:
  "(0::int) < 2
   \<and> snd (Mode (objects exFS ! fr_fileInfo (openReader 1 ''/'')))
   \<and> fr_readdir (openReader 1 ''/'') = None
   \<and> pages (objects exFS) (openReader 1 ''/'') 2 = [([2, 0], None), ([3], Some EOF)]
   \<and> concat (map fst (pages (objects exFS) (openReader 1 ''/'') 2))
       = fst (fst (Readdir (objects exFS) (openReader 1 ''/'') 0))
   \<and> fst (Readdir (objects exFS) (openReader 1 ''/'') 0) = ([2, 0, 3], None)"
  using Readdir_pages_concat [of 2 "objects exFS" "openReader 1 ''/''" "openReader 1 ''/''"]
  by (simp add: pages.simps Readdir_def readdir_def openReader_def objects_exFS Mode_def)

text \<open>
  Claim C5, as the code has it. When a \<^verbatim>\<open>Readdir(count)\<close> call with \<open>count > 0\<close>
  on a directory handle has returned the end-of-listing signal, the cursor is nil again,
  so the next call with \<open>count' > 0\<close> starts the listing over: it returns the first
  \<open>count'\<close> children with no error when the directory has that many, and otherwise all
  children together with \<^verbatim>\<open>io.EOF\<close>. The result is empty with \<^verbatim>\<open>io.EOF\<close> only
  for a directory without children.
\<close>

theorem Readdir_after_exhaustion_restarts:
  assumes "0 < count" and "snd (Mode (objs ! fr_fileInfo f))"
    and "Readdir objs f count = ((l, Some EOF), f')" and "0 < count'"
  shows "fr_readdir f' = None
     \<and> Readdir objs f' count' =
         (let ch = fi_fileInfos (objs ! fr_fileInfo f) in
          if int (length ch) \<ge> count'
          then ((take (nat count') ch, None), f'\<lparr>fr_readdir := Some (drop (nat count') ch)\<rparr>)
          else ((ch, Some EOF), f'))"
proof -
  have "fr_readdir f' = None \<and> fr_fileInfo f' = fr_fileInfo f"
    using assms(1,3)
    by (auto simp: Readdir_def pathError_def split: option.splits sum.splits if_splits)
  then show ?thesis
    using assms(2,4) by (auto simp: Readdir_def readdir_def Let_def)
qed

text \<open>
  At the root of the example archive, with pages of five: the first call returns the
  three children with \<^verbatim>\<open>io.EOF\<close>, and so does the second.
\<close>

theorem Readdir_after_exhaustion_restarts_witness:
  "(0::int) < 5
   \<and> snd (Mode (objects exFS ! fr_fileInfo (openReader 1 ''/'')))
   \<and> Readdir (objects exFS) (openReader 1 ''/'') 5 = (([2, 0, 3], Some EOF), openReader 1 ''/'')
   \<and> fr_readdir (openReader 1 ''/'') = None
   \<and> Readdir (objects exFS) (openReader 1 ''/'') 5 = (([2, 0, 3], Some EOF), openReader 1 ''/'')"
  using Readdir_after_exhaustion_restarts [of 5 "objects exFS" "openReader 1 ''/''"
      "[2, 0, 3]" "openReader 1 ''/''" 5]
  by (simp add: Readdir_def readdir_def openReader_def objects_exFS Mode_def)

text \<open>
  The claim as stated fails: the handle \<^verbatim>\<open>Open("/")\<close> returns on the example archive
  has its listing exhausted by \<^verbatim>\<open>Readdir(5)\<close>, and the next \<^verbatim>\<open>Readdir(5)\<close> returns
  the three children again, not an empty result.
\<close>

theorem Readdir_after_exhaustion_counterexample:
  "Open exFS ''/'' = Inr (openReader 1 ''/'')
   \<and> fst (Readdir (objects exFS) (openReader 1 ''/'') 5) = ([2, 0, 3], Some EOF)
   \<and> fst (Readdir (objects exFS) (snd (Readdir (objects exFS) (openReader 1 ''/'') 5)) 5)
       = ([2, 0, 3], Some EOF)
   \<and> fst (Readdir (objects exFS) (snd (Readdir (objects exFS) (openReader 1 ''/'') 5)) 5)
       \<noteq> ([], Some EOF)"
  by (simp add: Open_root_exFS Readdir_def readdir_def openReader_def objects_exFS Mode_def)

subsection \<open>Opening paths\<close>

text \<open>
  Claim C7, as the code has it. After the filesystem's \<^verbatim>\<open>Close\<close> (and whenever
  \<^verbatim>\<open>readerAt\<close> is nil) \<^verbatim>\<open>Open\<close> fails with the filesystem-closed error for every
  path. Before that, for every path whose cleaned and left-trimmed form is no key of
  the index, it fails with the path error of operation \<^verbatim>\<open>Open\<close> wrapping
  \<^verbatim>\<open>os.ErrNotExist\<close>, which is a different error, and whose path is the requested
  path after \<^verbatim>\<open>path.Clean\<close>, not the requested string itself.
\<close>

theorem Open_fails_closed_or_not_found:
  "(\<not> readerAt fs \<longrightarrow> Open fs name = Inl errFileSystemClosed)
   \<and> Open (snd (ZipFS_Close cerr fs)) name = Inl errFileSystemClosed
   \<and> (readerAt fs \<and> map_of (fileInfos fs) (TrimLeft (path_Clean name)) = None \<longrightarrow>
        Open fs name = Inl (PathError ''Open'' (path_Clean name) ErrNotExist))
   \<and> errFileSystemClosed \<noteq> PathError ''Open'' (path_Clean name) ErrNotExist"
  by (simp add: Open_def openFileInfo_def ZipFS_Close_def Let_def)

text \<open>
  On the example archive: the absent path \<^verbatim>\<open>a//b\<close> is reported as \<^verbatim>\<open>a/b\<close>, and
  after \<^verbatim>\<open>Close\<close> that path is refused with the filesystem-closed error.
\<close>

theorem Open_fails_closed_or_not_found_witness:
  "readerAt exFS
   \<and> map_of (fileInfos exFS) (TrimLeft (path_Clean ''a//b'')) = None
   \<and> Open exFS ''a//b'' = Inl (PathError ''Open'' ''a/b'' ErrNotExist)
   \<and> \<not> readerAt (snd (ZipFS_Close None exFS))
   \<and> Open (snd (ZipFS_Close None exFS)) ''a//b'' = Inl errFileSystemClosed"
  using Open_fails_closed_or_not_found [of exFS "''a//b''" None]
    Open_fails_closed_or_not_found [of "snd (ZipFS_Close None exFS)" "''a//b''" None]
  by (simp add: exFS_eq ZipFS_Close_def path_Clean_def TrimLeft_def)

text \<open>
  The claim as stated fails: the not-found error for the requested path \<^verbatim>\<open>a//b\<close> on
  the example archive carries the path \<^verbatim>\<open>a/b\<close>, and its message does not contain the
  requested string.
\<close>

theorem Open_not_found_path_counterexample:
  "Open exFS ''a//b'' = Inl (PathError ''Open'' ''a/b'' ErrNotExist)
   \<and> Error (PathError ''Open'' ''a/b'' ErrNotExist) = ''Open a/b: file does not exist''
   \<and> \<not> Contains (Error (PathError ''Open'' ''a/b'' ErrNotExist)) ''a//b''"
  by (simp add: exFS_eq Open_def openFileInfo_def path_Clean_def TrimLeft_def)

subsection \<open>Sizes\<close>

lemma sizedFS_eq:
  "sizedFS = \<lparr>readerAt = True, closer = True, reader = Some [sizedDir, bothSizes],
     fileInfos = [(''d/'', 0), (''d'', 0), (''/'', 1), ([], 1), (''big'', 2)],
     objects = [\<lparr>fi_name = ''d/'', fi_zipFile = Some sizedDir, fi_fileInfos = []\<rparr>,
                \<lparr>fi_name = ''/'', fi_zipFile = None, fi_fileInfos = [2, 0]\<rparr>,
                \<lparr>fi_name = ''big'', fi_zipFile = Some bothSizes, fi_fileInfos = []\<rparr>]\<rparr>"
  by (simp add: sizedFS_def New_def addEntry_def FindOrCreate_def FindOrCreateParent_def
      sizedDir_def bothSizes_def dirName_def path_Dir_def path_Clean_def HasSuffix_def
      TrimRight_def sortDir_def Name_def path_Base_def Let_def)

text \<open>
  Claim C8, as the code has it. \<^verbatim>\<open>Size\<close> returns 0 for a node without archive record
  (an implicitly created directory). For every node with an archive record, a file or a
  directory, it returns the recorded uncompressed size: the 64-bit field whenever that
  field is nonzero, the legacy 32-bit field otherwise.
\<close>

theorem Size_by_record:
  "(fi_zipFile fi = None \<longrightarrow> Size fi = 0)
   \<and> (\<forall>zf. fi_zipFile fi = Some zf \<longrightarrow>
         Size fi = (if zf_UncompressedSize64 zf \<noteq> 0 then zf_UncompressedSize64 zf
                    else ucast (zf_UncompressedSize zf)))"
  by (simp add: Size_def)

text \<open>
  The implicit root of the example archive has size 0, its file \<^verbatim>\<open>b\<close> the legacy
  size 3, and the entry with both fields set the 64-bit size.
\<close>

theorem Size_by_record_witness:
  "fi_zipFile (objects exFS ! 1) = None \<and> Size (objects exFS ! 1) = 0
   \<and> fi_zipFile (objects exFS ! 0) = Some (sample ''b'') \<and> Size (objects exFS ! 0) = 3
   \<and> fi_zipFile (objects sizedFS ! 2) = Some bothSizes
   \<and> Size (objects sizedFS ! 2) = 5000000000"
  using Size_by_record [of "objects exFS ! 1"] Size_by_record [of "objects exFS ! 0"]
    Size_by_record [of "objects sizedFS ! 2"]
  by (simp add: objects_exFS sizedFS_eq sample_def bothSizes_def)

text \<open>
  The claim as stated fails: the archive with the directory entry \<^verbatim>\<open>d/\<close> of recorded
  size 7 yields, at the path \<^verbatim>\<open>d\<close>, a directory whose \<^verbatim>\<open>Size\<close> is 7.
\<close>

theorem Size_directory_counterexample:
  "Open sizedFS ''d'' = Inr (openReader 0 ''d'')
   \<and> IsDir (objects sizedFS ! 0)
   \<and> snd (Mode (objects sizedFS ! 0))
   \<and> Size (objects sizedFS ! 0) = 7"
  by (simp add: sizedFS_eq Open_def openFileInfo_def path_Clean_def TrimLeft_def IsDir_def
      zf_IsDir_def Mode_def Size_def sizedDir_def)

subsection \<open>Reading a directory, and listing after Close\<close>

text \<open>
  Claim C2: \<^verbatim>\<open>Read\<close> on a handle for a directory, listed in the archive or created
  implicitly, returns an error and never panics. The code breaks it. The root of the
  example archive is an implicitly created directory: \<^verbatim>\<open>Open("/")\<close> returns a handle
  on it, and \<^verbatim>\<open>Read\<close> on that handle dereferences the nil \<^verbatim>\<open>zipFile\<close> and panics
  instead of returning an error.
\<close>

theorem Read_implicit_directory_panics:
  "Open exFS ''/'' = Inr (openReader 1 ''/'')
   \<and> fi_zipFile (objects exFS ! 1) = None
   \<and> IsDir (objects exFS ! 1)
   \<and> Read (objects exFS) (openReader 1 ''/'') 1 = Panic"
  by (simp add: Open_root_exFS objects_exFS IsDir_def Read_def openReader_def)

text \<open>
  Claim C3: after \<^verbatim>\<open>Close\<close> on a handle, \<^verbatim>\<open>Read\<close>, \<^verbatim>\<open>Seek\<close> and
  \<^verbatim>\<open>Readdir\<close> fail with the closed-handle error. The code breaks it for
  \<^verbatim>\<open>Readdir\<close>. The handle on the root of the example archive is closed without
  error, and \<^verbatim>\<open>Readdir(0)\<close> and \<^verbatim>\<open>Readdir(2)\<close> on the closed handle still return
  children with no error.
\<close>

theorem Readdir_after_Close_lists:
  "Close (openReader 1 ''/'') idle = (None, (openReader 1 ''/'')\<lparr>fr_closed := True\<rparr>, idle)
   \<and> fst (Readdir (objects exFS) ((openReader 1 ''/'')\<lparr>fr_closed := True\<rparr>) 0)
       = ([2, 0, 3], None)
   \<and> fst (Readdir (objects exFS) ((openReader 1 ''/'')\<lparr>fr_closed := True\<rparr>) 2)
       = ([2, 0], None)"
  by (simp add: Close_def openReader_def List.map_filter_simps Readdir_def readdir_def
      objects_exFS Mode_def)

subsection \<open>What the calls into the operating system leave unchanged\<close>

lemma fault_frame:
  "fault w = (e, w') \<Longrightarrow>
     created w' = created w \<and> removes w' = removes w \<and> tmpfiles w' = tmpfiles w"
  by (auto simp: fault_def split: list.splits)


lemma zs_Close_frame:
  "zs_Close r w = (e, r', w') \<Longrightarrow> created w' = created w \<and> removes w' = removes w"
  by (auto simp: zs_Close_def split: prod.splits dest: fault_frame)

lemma of_Close_frame:
  "of_Close t w = (e, t', w') \<Longrightarrow>
     created w' = created w \<and> removes w' = removes w \<and> of_name t' = of_name t \<and> of_closed t'"
  by (auto simp: of_Close_def split: prod.splits if_splits dest: fault_frame)

lemma os_Remove_frame:
  "os_Remove n w = (e, w') \<Longrightarrow> created w' = created w \<and> removes w' = removes w @ [n]"
  by (auto simp: os_Remove_def Let_def split: prod.splits if_splits option.splits
      dest!: fault_frame)





subsection \<open>Seeking and temporary files\<close>



















subsection \<open>Closing a handle\<close>


lemma Close_frame:
  assumes "Close f w = (e, f', w')"
  shows "fr_closed f' \<and> fr_name f' = fr_name f
     \<and> (fr_reader f = None \<longrightarrow> fr_reader f' = None)
     \<and> (\<forall>t. fr_file f = Some t \<longrightarrow>
           (\<exists>t'. fr_file f' = Some t' \<and> of_name t' = of_name t \<and> of_closed t')
           \<and> (of_name t \<noteq> [] \<longrightarrow> removes w' = removes w @ [of_name t]))"
proof -
  obtain errs1 f1 w1 where a: "(case fr_reader f of
              None \<Rightarrow> ([], f, w)
            | Some r \<Rightarrow>
                (case zs_Close r w of (err, r', w') \<Rightarrow> ([err], f\<lparr>fr_reader := Some r'\<rparr>, w'))) = (errs1, f1, w1)"
    by (metis prod_cases3)
  have a': "fr_file f1 = fr_file f" "fr_name f1 = fr_name f" "removes w1 = removes w"
    "fr_reader f = None \<longrightarrow> fr_reader f1 = None"
    using a by (auto split: option.splits prod.splits dest!: zs_Close_frame)
  show ?thesis
  proof (cases "fr_file f")
    case None
    then show ?thesis using assms a' unfolding Close_def a by (auto split: if_splits)
  next
    case (Some t)
    obtain e2 t2 w2 where c: "of_Close t w1 = (e2, t2, w2)" by (metis prod_cases3)
    note cf = of_Close_frame [OF c]
    obtain e3 w3 where r: "os_Remove (of_name t) w2 = (e3, w3)" by (metis prod.exhaust)
    note rf = os_Remove_frame [OF r]
    show ?thesis using assms a' Some c cf r rf unfolding Close_def a
      by (auto split: if_splits)
  qed
qed



lemma Close_matHandle:
  "Close matHandle matWorld
     = (None,
        matHandle\<lparr>fr_file := Some \<lparr>of_name = ''/tmp/zipfs'', of_data = [1, 2, 3], of_pos = 2,
                                     of_closed = True\<rparr>,
                   fr_closed := True\<rparr>,
        matWorld\<lparr>tmpfiles := [], removes := [''/tmp/zipfs'']\<rparr>)"
  by (simp add: Close_def matHandle_def matWorld_def of_Close_def os_Remove_def fault_def
      List.map_filter_simps Let_def)




subsection \<open>The index after New\<close>

lemma TrimRight_idem: "TrimRight (TrimRight s) = TrimRight s"
  by (simp add: TrimRight_def dropWhile_idem)

lemma HasSuffix_not_TrimRight: "HasSuffix k \<Longrightarrow> TrimRight x \<noteq> k"
  using TrimRight_no_slash [of x] by auto

lemma dirName_TrimRight: "dirName (TrimRight n) = dirName n"
  by (simp add: dirName_def TrimRight_idem)

lemma HasSuffix_append_slash: "HasSuffix (d @ ''/'')"
  by (simp add: HasSuffix_def)

lemma HasSuffix_dirName: "HasSuffix (dirName n)"
  by (simp add: dirName_def Let_def HasSuffix_append_slash) (simp add: HasSuffix_def)

lemma dirName_alias: "x = n \<or> TrimRight x = n \<Longrightarrow> dirName x = dirName n"
  using dirName_TrimRight by metis

lemma TrimRight_alias: "x = n \<or> TrimRight x = n \<Longrightarrow> TrimRight x = TrimRight n"
  using TrimRight_idem by metis

lemma index_ext_refl: "index_ext s s"
  by (cases s) (simp add: index_ext_def)

lemma index_ext_trans:
  assumes "index_ext s s'" "index_ext s' s''"
  shows "index_ext s s''"
proof -
  obtain objs fm objs' fm' objs'' fm'' where
    s: "s = (objs, fm)" "s' = (objs', fm')" "s'' = (objs'', fm'')"
    by (cases s; cases s'; cases s'') auto
  have a: "length objs \<le> length objs'"
    "\<And>p. p < length objs \<Longrightarrow> fi_name (objs' ! p) = fi_name (objs ! p)"
    "\<And>p. p < length objs \<Longrightarrow> set (fi_fileInfos (objs ! p)) \<subseteq> set (fi_fileInfos (objs' ! p))"
    "\<And>p. p < length objs \<Longrightarrow> fi_zipFile (objs ! p) \<noteq> None \<Longrightarrow> fi_zipFile (objs' ! p) \<noteq> None"
    "\<And>k q. HasSuffix k \<Longrightarrow> map_of fm k = Some q \<Longrightarrow> map_of fm' k = Some q"
    using assms(1) unfolding s index_ext_def by simp_all
  have b: "length objs' \<le> length objs''"
    "\<And>p. p < length objs' \<Longrightarrow> fi_name (objs'' ! p) = fi_name (objs' ! p)"
    "\<And>p. p < length objs' \<Longrightarrow> set (fi_fileInfos (objs' ! p)) \<subseteq> set (fi_fileInfos (objs'' ! p))"
    "\<And>p. p < length objs' \<Longrightarrow> fi_zipFile (objs' ! p) \<noteq> None \<Longrightarrow> fi_zipFile (objs'' ! p) \<noteq> None"
    "\<And>k q. HasSuffix k \<Longrightarrow> map_of fm' k = Some q \<Longrightarrow> map_of fm'' k = Some q"
    using assms(2) unfolding s index_ext_def by simp_all
  have lt: "p < length objs'" if "p < length objs" for p
    using that a(1) by simp
  have n: "\<forall>p < length objs.
           fi_name (objs'' ! p) = fi_name (objs ! p)
         \<and> set (fi_fileInfos (objs ! p)) \<subseteq> set (fi_fileInfos (objs'' ! p))
         \<and> (fi_zipFile (objs ! p) \<noteq> None \<longrightarrow> fi_zipFile (objs'' ! p) \<noteq> None)"
  proof (intro allI impI conjI)
    fix p assume p: "p < length objs"
    show "fi_name (objs'' ! p) = fi_name (objs ! p)"
      using a(2) [OF p] b(2) [OF lt [OF p]] by simp
    show "set (fi_fileInfos (objs ! p)) \<subseteq> set (fi_fileInfos (objs'' ! p))"
      using a(3) [OF p] b(3) [OF lt [OF p]] by blast
    show "fi_zipFile (objs'' ! p) \<noteq> None" if "fi_zipFile (objs ! p) \<noteq> None"
      using a(4) [OF p that] b(4) [OF lt [OF p]] by blast
  qed
  have k: "\<forall>k q. HasSuffix k \<longrightarrow> map_of fm k = Some q \<longrightarrow> map_of fm'' k = Some q"
    using a(5) b(5) by blast
  have l: "length objs \<le> length objs''"
    using a(1) b(1) by simp
  show ?thesis
    unfolding s index_ext_def prod.case using l n k by blast
qed

lemma entry_linked_ext:
  assumes "index_ext s s'" "entry_linked s zf"
  shows "entry_linked s' zf"
proof -
  obtain objs fm objs' fm' where s: "s = (objs, fm)" "s' = (objs', fm')"
    by (cases s; cases s') auto
  have a: "length objs \<le> length objs'"
    "\<And>p. p < length objs \<Longrightarrow> fi_name (objs' ! p) = fi_name (objs ! p)"
    "\<And>p. p < length objs \<Longrightarrow> set (fi_fileInfos (objs ! p)) \<subseteq> set (fi_fileInfos (objs' ! p))"
    "\<And>p. p < length objs \<Longrightarrow> fi_zipFile (objs ! p) \<noteq> None \<Longrightarrow> fi_zipFile (objs' ! p) \<noteq> None"
    "\<And>k q. HasSuffix k \<Longrightarrow> map_of fm k = Some q \<Longrightarrow> map_of fm' k = Some q"
    using assms(1) unfolding s index_ext_def by simp_all
  from assms(2) obtain p c where pc:
    "map_of fm (dirName (zf_Name zf)) = Some p" "p < length objs" "c < length objs"
    "c \<in> set (fi_fileInfos (objs ! p))"
    "TrimRight (fi_name (objs ! c)) = TrimRight (zf_Name zf)"
    "fi_zipFile (objs ! c) \<noteq> None"
    unfolding s entry_linked_def by auto
  have "map_of fm' (dirName (zf_Name zf)) = Some p"
    using a(5) [OF HasSuffix_dirName pc(1)] .
  moreover have "p < length objs'" "c < length objs'"
    using pc(2,3) a(1) by simp_all
  moreover have "c \<in> set (fi_fileInfos (objs' ! p))"
    using a(3) [OF pc(2)] pc(4) by blast
  moreover have "TrimRight (fi_name (objs' ! c)) = TrimRight (zf_Name zf)"
    using a(2) [OF pc(3)] pc(5) by simp
  moreover have "fi_zipFile (objs' ! c) \<noteq> None"
    using a(4) [OF pc(3) pc(6)] .
  ultimately show ?thesis
    unfolding s entry_linked_def prod.case by blast
qed

lemma index_wfD:
  assumes "index_wf S (objs, fm)"
  shows "\<And>k p. map_of fm k = Some p \<Longrightarrow> p < length objs"
    and "\<And>k p. map_of fm k = Some p \<Longrightarrow>
           fi_name (objs ! p) = k \<or> TrimRight (fi_name (objs ! p)) = k"
    and "\<And>k. map_of fm k \<noteq> None \<Longrightarrow> map_of fm (TrimRight k) \<noteq> None"
    and "\<And>q c. q < length objs \<Longrightarrow> c \<in> set (fi_fileInfos (objs ! q)) \<Longrightarrow>
           c < length objs \<and> map_of fm (dirName (fi_name (objs ! c))) = Some q"
    and "\<And>p zf. p < length objs \<Longrightarrow> fi_zipFile (objs ! p) = Some zf \<Longrightarrow>
           zf \<in> S \<and> TrimRight (zf_Name zf) = TrimRight (fi_name (objs ! p))"
  using assms unfolding index_wf_def prod.case by blast+

lemma index_wfI:
  assumes "\<And>k p. map_of fm k = Some p \<Longrightarrow>
             p < length objs \<and> (fi_name (objs ! p) = k \<or> TrimRight (fi_name (objs ! p)) = k)"
    and "\<And>k. map_of fm k \<noteq> None \<Longrightarrow> map_of fm (TrimRight k) \<noteq> None"
    and "\<And>q c. q < length objs \<Longrightarrow> c \<in> set (fi_fileInfos (objs ! q)) \<Longrightarrow>
           c < length objs \<and> map_of fm (dirName (fi_name (objs ! c))) = Some q"
    and "\<And>p zf. p < length objs \<Longrightarrow> fi_zipFile (objs ! p) = Some zf \<Longrightarrow>
           zf \<in> S \<and> TrimRight (zf_Name zf) = TrimRight (fi_name (objs ! p))"
  shows "index_wf S (objs, fm)"
  unfolding index_wf_def prod.case using assms by blast

lemma FindOrCreate_cases:
  obtains (found) p where "map_of fm name = Some p"
      "FindOrCreate name (objs, fm) = (p, objs, fm)"
  | (created) fm' where "map_of fm name = None"
      "FindOrCreate name (objs, fm)
         = (length objs,
            objs @ [\<lparr>fi_name = name, fi_zipFile = None, fi_fileInfos = []\<rparr>], fm')"
      "map_of fm' = (map_of fm)(name \<mapsto> length objs, TrimRight name \<mapsto> length objs)"
proof (cases "map_of fm name")
  case None
  show ?thesis
  proof (rule created [OF None])
    show "FindOrCreate name (objs, fm)
         = (length objs,
            objs @ [\<lparr>fi_name = name, fi_zipFile = None, fi_fileInfos = []\<rparr>], 
            if TrimRight name \<noteq> name then AList.update (TrimRight name) (length objs) (AList.update name (length objs) fm) else AList.update name (length objs) fm)"
      using None by (simp add: FindOrCreate_def Let_def)
    show "map_of (if TrimRight name \<noteq> name then AList.update (TrimRight name) (length objs) (AList.update name (length objs) fm) else AList.update name (length objs) fm) = (map_of fm)(name \<mapsto> length objs, TrimRight name \<mapsto> length objs)"
      by (auto simp: update_conv')
  qed
next
  case (Some p)
  then show ?thesis by (intro found [of p]) (simp_all add: FindOrCreate_def)
qed

lemma FindOrCreate_wf:
  assumes wf: "index_wf S (objs, fm)"
    and eq: "FindOrCreate name (objs, fm) = (p, objs', fm')"
  shows "index_wf S (objs', fm')" and "index_ext (objs, fm) (objs', fm')"
    and "map_of fm' name = Some p" and "p < length objs'"
    and "fi_name (objs' ! p) = name \<or> TrimRight (fi_name (objs' ! p)) = name"
proof -
  note d = index_wfD [OF wf]
  have "index_wf S (objs', fm') \<and> index_ext (objs, fm) (objs', fm')
     \<and> map_of fm' name = Some p \<and> p < length objs'
     \<and> (fi_name (objs' ! p) = name \<or> TrimRight (fi_name (objs' ! p)) = name)"
  proof (cases rule: FindOrCreate_cases [of fm name objs])
    case (found p')
    then have "p' = p" "objs' = objs" "fm' = fm" using eq by simp_all
    then show ?thesis using wf found(1) d(1,2) [OF found(1)] by (simp add: index_ext_refl)
  next
    case (created fm1)
    let ?new = "\<lparr>fi_name = name, fi_zipFile = None, fi_fileInfos = []\<rparr>"
    have r: "p = length objs" "objs' = objs @ [?new]" "fm' = fm1"
      using created(2) eq by simp_all
    have m: "map_of fm' = (map_of fm)(name \<mapsto> length objs, TrimRight name \<mapsto> length objs)"
      using created(3) r by simp
    have old: "objs' ! q = objs ! q" if "q < length objs" for q
      using that by (simp add: r nth_append)
    have new: "objs' ! length objs = ?new" by (simp add: r)
    have len: "length objs' = Suc (length objs)" by (simp add: r)
    have keep: "map_of fm' k = Some q" if "map_of fm k = Some q" "HasSuffix k" for k q
    proof -
      have "k \<noteq> name" using that(1) created(1) by auto
      moreover have "k \<noteq> TrimRight name" using HasSuffix_not_TrimRight [OF that(2)] by auto
      ultimately show ?thesis using that(1) by (simp add: m)
    qed
    have w: "index_wf S (objs', fm')"
    proof (rule index_wfI)
      fix k q assume kq: "map_of fm' k = Some q"
      show "q < length objs' \<and> (fi_name (objs' ! q) = k \<or> TrimRight (fi_name (objs' ! q)) = k)"
      proof (cases "k = name \<or> k = TrimRight name")
        case True
        then have "q = length objs" using kq by (auto simp: m split: if_splits)
        then show ?thesis using True new len by auto
      next
        case False
        then have "map_of fm k = Some q" using kq by (simp add: m)
        from d(1) [OF this] d(2) [OF this] show ?thesis using old len by auto
      qed
    next
      fix k assume k: "map_of fm' k \<noteq> None"
      show "map_of fm' (TrimRight k) \<noteq> None"
      proof (cases "k = name \<or> k = TrimRight name")
        case True
        then show ?thesis by (auto simp: m TrimRight_idem)
      next
        case False
        then have "map_of fm k \<noteq> None" using k by (simp add: m)
        from d(3) [OF this] show ?thesis by (simp add: m)
      qed
    next
      fix q c assume q: "q < length objs'" and c: "c \<in> set (fi_fileInfos (objs' ! q))"
      have ql: "q < length objs"
        using q c new len by (cases "q = length objs") auto
      from c have "c \<in> set (fi_fileInfos (objs ! q))" using old [OF ql] by simp
      from d(4) [OF ql this] have cl: "c < length objs"
        and f: "map_of fm (dirName (fi_name (objs ! c))) = Some q" by simp_all
      show "c < length objs' \<and> map_of fm' (dirName (fi_name (objs' ! c))) = Some q"
        using cl len old [OF cl] keep [OF f HasSuffix_dirName] by simp
    next
      fix q zf assume q: "q < length objs'" and z: "fi_zipFile (objs' ! q) = Some zf"
      have ql: "q < length objs"
        using q z new len by (cases "q = length objs") auto
      from z d(5) [OF ql, of zf] old [OF ql]
      show "zf \<in> S \<and> TrimRight (zf_Name zf) = TrimRight (fi_name (objs' ! q))" by simp
    qed
    have e: "index_ext (objs, fm) (objs', fm')"
      unfolding index_ext_def prod.case using old keep len by auto
    have lk: "map_of fm' name = Some p" by (simp add: m r(1))
    show ?thesis using w e lk new len r(1) by simp
  qed
  then show "index_wf S (objs', fm')" and "index_ext (objs, fm) (objs', fm')"
    and "map_of fm' name = Some p" and "p < length objs'"
    and "fi_name (objs' ! p) = name \<or> TrimRight (fi_name (objs' ! p)) = name"
    by simp_all
qed

lemma setZip_wf:
  assumes wf: "index_wf S (objs, fm)" and fi: "fi < length objs"
    and nm: "TrimRight (zf_Name zf) = TrimRight (fi_name (objs ! fi))"
  defines "objs' \<equiv> objs[fi := (objs ! fi)\<lparr>fi_zipFile := Some zf\<rparr>]"
  shows "index_wf (insert zf S) (objs', fm)" and "index_ext (objs, fm) (objs', fm)"
    and "fi_zipFile (objs' ! fi) \<noteq> None" and "length objs' = length objs"
    and "fi_name (objs' ! fi) = fi_name (objs ! fi)"
proof -
  note d = index_wfD [OF wf]
  have len: "length objs' = length objs" by (simp add: objs'_def)
  have same: "fi_name (objs' ! p) = fi_name (objs ! p)"
    "fi_fileInfos (objs' ! p) = fi_fileInfos (objs ! p)" if "p < length objs" for p
    using that fi by (auto simp: objs'_def nth_list_update)
  have zip: "fi_zipFile (objs' ! p) = (if p = fi then Some zf else fi_zipFile (objs ! p))"
    if "p < length objs" for p
    using that fi by (auto simp: objs'_def nth_list_update)
  show "index_wf (insert zf S) (objs', fm)"
  proof (rule index_wfI)
    fix k p assume "map_of fm k = Some p"
    from d(1) [OF this] d(2) [OF this]
    show "p < length objs' \<and> (fi_name (objs' ! p) = k \<or> TrimRight (fi_name (objs' ! p)) = k)"
      using len same(1) by simp
  next
    fix k assume "map_of fm k \<noteq> None"
    from d(3) [OF this] show "map_of fm (TrimRight k) \<noteq> None" .
  next
    fix q c assume q: "q < length objs'" and c: "c \<in> set (fi_fileInfos (objs' ! q))"
    then have q': "q < length objs" and c': "c \<in> set (fi_fileInfos (objs ! q))"
      using len same(2) by simp_all
    from d(4) [OF q' c']
    show "c < length objs' \<and> map_of fm (dirName (fi_name (objs' ! c))) = Some q"
      using len same(1) by simp
  next
    fix p z assume p: "p < length objs'" and z: "fi_zipFile (objs' ! p) = Some z"
    have p': "p < length objs" using p len by simp
    show "z \<in> insert zf S \<and> TrimRight (zf_Name z) = TrimRight (fi_name (objs' ! p))"
    proof (cases "p = fi")
      case True
      then have "z = zf" using z zip [OF p'] by simp
      then show ?thesis using nm True same(1) [OF p'] by simp
    next
      case False
      then have "fi_zipFile (objs ! p) = Some z" using z zip [OF p'] by simp
      from d(5) [OF p' this] show ?thesis using same(1) [OF p'] by simp
    qed
  qed
  show "index_ext (objs, fm) (objs', fm)"
    unfolding index_ext_def prod.case using len same zip by auto
  show "fi_zipFile (objs' ! fi) \<noteq> None" using zip [OF fi] by simp
  show "length objs' = length objs" by (rule len)
  show "fi_name (objs' ! fi) = fi_name (objs ! fi)" by (rule same(1) [OF fi])
qed

lemma addChild_wf:
  assumes wf: "index_wf S (objs, fm)" and par: "par < length objs" and c: "c < length objs"
    and lk: "map_of fm (dirName (fi_name (objs ! c))) = Some par"
  defines "objs' \<equiv> objs[par := (objs ! par)\<lparr>fi_fileInfos := fi_fileInfos (objs ! par) @ [c]\<rparr>]"
  shows "index_wf S (objs', fm)" and "index_ext (objs, fm) (objs', fm)"
    and "c \<in> set (fi_fileInfos (objs' ! par))" and "length objs' = length objs"
    and "\<And>p. p < length objs \<Longrightarrow> fi_name (objs' ! p) = fi_name (objs ! p)"
    and "\<And>p. p < length objs \<Longrightarrow> fi_zipFile (objs' ! p) = fi_zipFile (objs ! p)"
proof -
  note d = index_wfD [OF wf]
  have len: "length objs' = length objs" by (simp add: objs'_def)
  have same: "fi_name (objs' ! p) = fi_name (objs ! p)"
    "fi_zipFile (objs' ! p) = fi_zipFile (objs ! p)" if "p < length objs" for p
    using that par by (auto simp: objs'_def nth_list_update)
  have ch: "set (fi_fileInfos (objs' ! p))
              = (if p = par then insert c (set (fi_fileInfos (objs ! p)))
                 else set (fi_fileInfos (objs ! p)))"
    if "p < length objs" for p
    using that par by (auto simp: objs'_def nth_list_update)
  show "index_wf S (objs', fm)"
  proof (rule index_wfI)
    fix k p assume "map_of fm k = Some p"
    from d(1) [OF this] d(2) [OF this]
    show "p < length objs' \<and> (fi_name (objs' ! p) = k \<or> TrimRight (fi_name (objs' ! p)) = k)"
      using len same(1) by simp
  next
    fix k assume "map_of fm k \<noteq> None"
    from d(3) [OF this] show "map_of fm (TrimRight k) \<noteq> None" .
  next
    fix q x assume q: "q < length objs'" and x: "x \<in> set (fi_fileInfos (objs' ! q))"
    have q': "q < length objs" using q len by simp
    show "x < length objs' \<and> map_of fm (dirName (fi_name (objs' ! x))) = Some q"
    proof (cases "q = par \<and> x = c")
      case True
      then show ?thesis using c lk len same(1) [OF c] by simp
    next
      case False
      then have "x \<in> set (fi_fileInfos (objs ! q))" using x ch [OF q'] by (auto split: if_splits)
      from d(4) [OF q' this] show ?thesis using len same(1) by simp
    qed
  next
    fix p z assume p: "p < length objs'" and z: "fi_zipFile (objs' ! p) = Some z"
    have p': "p < length objs" using p len by simp
    from d(5) [OF p', of z] z same [OF p']
    show "z \<in> S \<and> TrimRight (zf_Name z) = TrimRight (fi_name (objs' ! p))" by simp
  qed
  show "index_ext (objs, fm) (objs', fm)"
    unfolding index_ext_def prod.case using len same ch by auto
  show "c \<in> set (fi_fileInfos (objs' ! par))" using ch [OF par] by simp
  show "length objs' = length objs" by (rule len)
  show "\<And>p. p < length objs \<Longrightarrow> fi_name (objs' ! p) = fi_name (objs ! p)" by (rule same(1))
  show "\<And>p. p < length objs \<Longrightarrow> fi_zipFile (objs' ! p) = fi_zipFile (objs ! p)" by (rule same(2))
qed

lemma index_wf_mono: "index_wf S s \<Longrightarrow> S \<subseteq> S' \<Longrightarrow> index_wf S' s"
  unfolding index_wf_def by (cases s) (simp, blast)

lemma addEntry_wf:
  assumes wf: "index_wf S s"
  shows "index_wf (insert zf S) (addEntry zf s)" and "index_ext s (addEntry zf s)"
    and "entry_linked (addEntry zf s) zf"
proof -
  obtain objs fm where s: "s = (objs, fm)" by (cases s)
  let ?n = "zf_Name zf"
  obtain fi objs1 fm1 where f1: "FindOrCreate ?n (objs, fm) = (fi, objs1, fm1)"
    by (metis prod_cases3)
  note a = FindOrCreate_wf [OF wf [unfolded s] f1]
  let ?objs2 = "objs1[fi := (objs1 ! fi)\<lparr>fi_zipFile := Some zf\<rparr>]"
  have nm: "TrimRight (zf_Name zf) = TrimRight (fi_name (objs1 ! fi))"
    using TrimRight_alias [OF a(5)] by simp
  note b = setZip_wf [OF a(1) a(4) nm]
  obtain par objs3 fm3 where f3: "FindOrCreate (dirName ?n) (?objs2, fm1) = (par, objs3, fm3)"
    by (metis prod_cases3)
  note c = FindOrCreate_wf [OF b(1) f3]
  have e23: "length ?objs2 \<le> length objs3"
    "\<And>p. p < length ?objs2 \<Longrightarrow> fi_name (objs3 ! p) = fi_name (?objs2 ! p)"
    "\<And>p. p < length ?objs2 \<Longrightarrow> fi_zipFile (?objs2 ! p) \<noteq> None \<Longrightarrow> fi_zipFile (objs3 ! p) \<noteq> None"
    using c(2) unfolding index_ext_def prod.case by simp_all
  have fi2: "fi < length ?objs2" using a(4) by simp
  have fi3: "fi < length objs3" using fi2 e23(1) by simp
  have name3: "fi_name (objs3 ! fi) = fi_name (objs1 ! fi)"
    using e23(2) [OF fi2] b(5) by simp
  have zip3: "fi_zipFile (objs3 ! fi) \<noteq> None"
    using e23(3) [OF fi2 b(3)] .
  have lk: "map_of fm3 (dirName (fi_name (objs3 ! fi))) = Some par"
    using c(3) dirName_alias [OF a(5)] name3 by simp
  note d = addChild_wf [OF c(1) c(4) fi3 lk]
  let ?objs4 = "objs3[par := (objs3 ! par)\<lparr>fi_fileInfos := fi_fileInfos (objs3 ! par) @ [fi]\<rparr>]"
  have r: "addEntry zf (objs, fm) = (?objs4, fm3)"
    unfolding addEntry_def f1 prod.case Let_def FindOrCreateParent_def f3 ..
  show "index_wf (insert zf S) (addEntry zf s)" unfolding s r by (rule d(1))
  show "index_ext s (addEntry zf s)"
    unfolding s r
    by (rule index_ext_trans [OF a(2)], rule index_ext_trans [OF b(2)],
        rule index_ext_trans [OF c(2)], rule d(2))
  show "entry_linked (addEntry zf s) zf"
    unfolding s r entry_linked_def prod.case
  proof (intro exI conjI)
    show "map_of fm3 (dirName (zf_Name zf)) = Some par" by (rule c(3))
    show "par < length ?objs4" using c(4) by simp
    show "fi < length ?objs4" using fi3 by simp
    show "fi \<in> set (fi_fileInfos (?objs4 ! par))" by (rule d(3))
    show "TrimRight (fi_name (?objs4 ! fi)) = TrimRight (zf_Name zf)"
      using d(5) [OF fi3] name3 nm by simp
    show "fi_zipFile (?objs4 ! fi) \<noteq> None"
      using d(6) [OF fi3] zip3 by simp
  qed
qed

lemma fold_addEntry_wf:
  "index_wf S s \<Longrightarrow>
     index_wf (S \<union> set files) (fold addEntry files s)
     \<and> index_ext s (fold addEntry files s)
     \<and> (\<forall>zf \<in> set files. entry_linked (fold addEntry files s) zf)"
proof (induction files arbitrary: S s)
  case Nil
  then show ?case by (simp add: index_ext_refl)
next
  case (Cons zf files)
  note st = addEntry_wf [OF Cons.prems, of zf]
  from Cons.IH [OF st(1)]
  have ih: "index_wf (insert zf S \<union> set files) (fold addEntry files (addEntry zf s))"
    "index_ext (addEntry zf s) (fold addEntry files (addEntry zf s))"
    "\<forall>z \<in> set files. entry_linked (fold addEntry files (addEntry zf s)) z"
    by simp_all
  have "entry_linked (fold addEntry files (addEntry zf s)) zf"
    using entry_linked_ext [OF ih(2) st(3)] .
  moreover have "index_ext s (fold addEntry files (addEntry zf s))"
    using index_ext_trans [OF st(2) ih(2)] .
  ultimately show ?case using ih by simp
qed

lemma index_wf_empty: "index_wf {} ([], [])"
  by (simp add: index_wf_def)

lemma sortDir_frame:
  "length (sortDir p objs) = length objs
   \<and> fi_name (sortDir p objs ! q) = fi_name (objs ! q)
   \<and> fi_zipFile (sortDir p objs ! q) = fi_zipFile (objs ! q)
   \<and> set (fi_fileInfos (sortDir p objs ! q)) = set (fi_fileInfos (objs ! q))"
proof (cases "p < length objs")
  case True
  then show ?thesis by (cases "p = q") (simp_all add: sortDir_def)
next
  case False
  then show ?thesis by (simp add: sortDir_def list_update_beyond)
qed


lemma New_index:
  assumes "New (Inr files) = Inr fs"
  obtains objs where "fold addEntry files ([], []) = (objs, fileInfos fs)"
    "objects fs = fold sortDir (map snd (fileInfos fs)) objs" "readerAt fs"
  using assms by (auto simp: New_def split: prod.splits)



lemma New_exArchive: "New (Inr exArchive) = Inr exFS"
  by (simp add: exFS_def New_def split: prod.splits)





subsection \<open>Sorted child lists\<close>

lemma Name_sortDir: "Name (sortDir q objs ! c) = Name (objs ! c)"
  using sortDir_frame [of q objs c] by (simp add: Name_def)

lemma sortDir_sorts: "p < length objs \<Longrightarrow> sorted_at (sortDir p objs) p"
proof -
  assume p: "p < length objs"
  show ?thesis
  proof (cases "length (fi_fileInfos (objs ! p)) > 1")
    case True
    then have "fi_fileInfos (sortDir p objs ! p)
                = sort_key (\<lambda>c. Name (objs ! c)) (fi_fileInfos (objs ! p))"
      using p by (simp add: sortDir_def)
    then show ?thesis
      unfolding sorted_at_def by (simp add: Name_sortDir)
  next
    case False
    then have "sortDir p objs = objs" by (simp add: sortDir_def)
    moreover have "sorted (map f xs)" if "\<not> length xs > 1" for f :: "paddr \<Rightarrow> string" and xs
      using that by (cases xs; cases "tl xs") auto
    ultimately show ?thesis using False unfolding sorted_at_def by simp
  qed
qed

lemma sortDir_keeps: "p < length objs \<Longrightarrow> sorted_at objs p \<Longrightarrow> sorted_at (sortDir q objs) p"
proof (cases "q = p")
  case True
  assume "p < length objs"
  then show ?thesis using True sortDir_sorts by simp
next
  case False
  assume "sorted_at objs p"
  moreover have "fi_fileInfos (sortDir q objs ! p) = fi_fileInfos (objs ! p)"
    using False by (simp add: sortDir_def)
  ultimately show ?thesis unfolding sorted_at_def by (simp add: Name_sortDir)
qed

lemma fold_sortDir_keeps:
  "p < length objs \<Longrightarrow> sorted_at objs p \<Longrightarrow> sorted_at (fold sortDir ps objs) p"
proof (induction ps arbitrary: objs)
  case Nil
  then show ?case by simp
next
  case (Cons q ps)
  have "p < length (sortDir q objs)" using Cons.prems(1) sortDir_frame [of q objs p] by simp
  from Cons.IH [OF this sortDir_keeps [OF Cons.prems]] show ?case by simp
qed

lemma fold_sortDir_sorts:
  "p < length objs \<Longrightarrow> p \<in> set ps \<Longrightarrow> sorted_at (fold sortDir ps objs) p"
proof (induction ps arbitrary: objs)
  case Nil
  then show ?case by simp
next
  case (Cons q ps)
  have len: "p < length (sortDir q objs)" using Cons.prems(1) sortDir_frame [of q objs p] by simp
  show ?case
  proof (cases "q = p")
    case True
    from fold_sortDir_keeps [OF len, of ps] sortDir_sorts [OF Cons.prems(1)] True
    show ?thesis by simp
  next
    case False
    then have "p \<in> set ps" using Cons.prems(2) by simp
    from Cons.IH [OF len this] show ?thesis by simp
  qed
qed

text \<open>
  Sorted listings. After \<^verbatim>\<open>New\<close> succeeds, the node of every handle \<^verbatim>\<open>Open\<close>
  returns has its child list in ascending order of the children's base names, and
  \<^verbatim>\<open>Readdir(0)\<close> on a directory handle returns that list.
\<close>

theorem Open_children_sorted:
  assumes new: "New (Inr files) = Inr fs" and opn: "Open fs name = Inr f"
  shows "sorted (map (\<lambda>c. Name (objects fs ! c)) (fi_fileInfos (objects fs ! fr_fileInfo f)))
     \<and> (snd (Mode (objects fs ! fr_fileInfo f)) \<longrightarrow>
          fst (Readdir (objects fs) f 0) = (fi_fileInfos (objects fs ! fr_fileInfo f), None))"
proof -
  from new obtain objs where ix: "fold addEntry files ([], []) = (objs, fileInfos fs)"
    and so: "objects fs = fold sortDir (map snd (fileInfos fs)) objs"
    by (rule New_index)
  from fold_addEntry_wf [OF index_wf_empty, of files]
  have wf: "index_wf (set files) (objs, fileInfos fs)"
    unfolding ix by simp
  from opn obtain k where k: "map_of (fileInfos fs) k = Some (fr_fileInfo f)"
    by (auto simp: Open_def openFileInfo_def openReader_def Let_def split: if_splits option.splits)
  have "fr_fileInfo f < length objs" using index_wfD(1) [OF wf k] .
  moreover have "fr_fileInfo f \<in> set (map snd (fileInfos fs))"
    using map_of_SomeD [OF k] by force
  ultimately have "sorted_at (objects fs) (fr_fileInfo f)"
    unfolding so by (rule fold_sortDir_sorts)
  then show ?thesis
    using Readdir_nonpos_dir [of 0 "objects fs" f] by (simp add: sorted_at_def)
qed

text \<open>The root of the example archive lists \<^verbatim>\<open>a\<close>, \<^verbatim>\<open>b\<close>, \<^verbatim>\<open>d\<close>.\<close>

theorem Open_children_sorted_witness:
  "New (Inr exArchive) = Inr exFS \<and> Open exFS ''/'' = Inr (openReader 1 ''/'')
   \<and> map (\<lambda>c. Name (objects exFS ! c)) (fi_fileInfos (objects exFS ! 1)) = [''a'', ''b'', ''d'']
   \<and> fst (Readdir (objects exFS) (openReader 1 ''/'') 0) = ([2, 0, 3], None)"
proof -
  have names:
    "map (\<lambda>c. Name (objects exFS ! c)) (fi_fileInfos (objects exFS ! 1)) = [''a'', ''b'', ''d'']"
    by (simp add: objects_exFS Name_examples)
  have listing: "fst (Readdir (objects exFS) (openReader 1 ''/'') 0) = ([2, 0, 3], None)"
    by (simp add: Readdir_def readdir_def openReader_def objects_exFS Mode_def)
  from New_exArchive Open_root_exFS names listing have all:
    "New (Inr exArchive) = Inr exFS \<and> Open exFS ''/'' = Inr (openReader 1 ''/'')
     \<and> map (\<lambda>c. Name (objects exFS ! c)) (fi_fileInfos (objects exFS ! 1)) = [''a'', ''b'', ''d'']
     \<and> fst (Readdir (objects exFS) (openReader 1 ''/'') 0) = ([2, 0, 3], None)"
    by blast
  show ?thesis
    using Open_children_sorted [OF New_exArchive Open_root_exFS] all by - assumption
qed

subsection \<open>Closed handles and file handles\<close>

text \<open>
  After \<^verbatim>\<open>Close\<close> on a handle, whatever it returned, \<^verbatim>\<open>Read\<close> and \<^verbatim>\<open>Seek\<close>
  fail with the closed-handle error, wrapped in a path error with the operation and the
  name the handle was opened with, and change nothing.
\<close>

theorem Read_Seek_after_Close:
  assumes "Close f w = (e, f', w')"
  shows "Read objs f' n = Done (([], Some (PathError ''Read'' (fr_name f) errFileClosed)), f')
     \<and> Seek objs f' offset whence w''
         = Done ((0, Some (PathError ''Seek'' (fr_name f) errFileClosed)), f', w'')"
  using Close_frame [OF assms] by (simp add: Read_def Seek_def pathError_def)

text \<open>The materialised handle on \<^verbatim>\<open>b\<close>, closed, refuses to read and to seek.\<close>

theorem Read_Seek_after_Close_witness:
  "Close matHandle matWorld
     = (None,
        matHandle\<lparr>fr_file := Some \<lparr>of_name = ''/tmp/zipfs'', of_data = [1, 2, 3], of_pos = 2,
                                     of_closed = True\<rparr>,
                   fr_closed := True\<rparr>,
        matWorld\<lparr>tmpfiles := [], removes := [''/tmp/zipfs'']\<rparr>)
   \<and> Read (objects exFS)
        (matHandle\<lparr>fr_file := Some \<lparr>of_name = ''/tmp/zipfs'', of_data = [1, 2, 3], of_pos = 2,
                                     of_closed = True\<rparr>,
                   fr_closed := True\<rparr>) 3
     = Done (([], Some (PathError ''Read'' ''b'' errFileClosed)),
             matHandle\<lparr>fr_file := Some \<lparr>of_name = ''/tmp/zipfs'', of_data = [1, 2, 3],
                                          of_pos = 2, of_closed = True\<rparr>,
                        fr_closed := True\<rparr>)"
  using Read_Seek_after_Close [OF Close_matHandle, of "objects exFS" 3 0 0 idle] Close_matHandle
  by (simp add: matHandle_def)

text \<open>
  \<^verbatim>\<open>Readdir\<close> on a handle whose node is not a directory, with the cursor not loaded
  (as \<^verbatim>\<open>Open\<close> returns it), fails with the not-a-directory error for every count.
\<close>

theorem Readdir_file_not_directory:
  "\<not> snd (Mode (objs ! fr_fileInfo f)) \<Longrightarrow> fr_readdir f = None \<Longrightarrow>
     Readdir objs f count
       = (([], Some (PathError ''Readdir'' (fr_name f) errNotDirectory)), f)"
  by (simp add: Readdir_def readdir_def pathError_def)

text \<open>The handle on the file \<^verbatim>\<open>b\<close> of the example archive.\<close>

theorem Readdir_file_not_directory_witness:
  "\<not> snd (Mode (objects exFS ! fr_fileInfo (openReader 0 ''b'')))
   \<and> fr_readdir (openReader 0 ''b'') = None
   \<and> Readdir (objects exFS) (openReader 0 ''b'') 0
       = (([], Some (PathError ''Readdir'' ''b'' errNotDirectory)), openReader 0 ''b'')
   \<and> Readdir (objects exFS) (openReader 0 ''b'') 3
       = (([], Some (PathError ''Readdir'' ''b'' errNotDirectory)), openReader 0 ''b'')"
  using Readdir_file_not_directory [of "objects exFS" "openReader 0 ''b''" 0]
    Readdir_file_not_directory [of "objects exFS" "openReader 0 ''b''" 3]
  by (simp add: openReader_def objects_exFS Mode_def IsDir_def zf_IsDir_def sample_def
      HasSuffix_def)

end
